theory Spec2Isabelle
  imports Main "HOL-Library.Word" "HOL-Library.Signed_Division"
begin

section \<open>JavaScript strings\<close>

text \<open>
  A JavaScript string is a sequence of UTF-16 code units and \<^verbatim>\<open>.length\<close> counts
  code units.  All box glyphs and icons of the sources lie in the Basic Multilingual
  Plane, so each of them is one code unit; they are written by their code point.
\<close>

type_synonym jschar = "16 word"
type_synonym jsstring = "jschar list"

definition js :: "string \<Rightarrow> jsstring" where
  "js s = map (\<lambda>c. of_nat (of_char c)) s"

definition NL :: jschar where "NL = 10"
definition SP :: jschar where "SP = 32"
definition ESC :: jschar where "ESC = 27"
definition BT :: jschar where "BT = 96"

datatype error = TypeError | RangeError

definition bindE :: "error + 'a \<Rightarrow> ('a \<Rightarrow> error + 'b) \<Rightarrow> error + 'b" where
  "bindE r f = (case r of Inl e \<Rightarrow> Inl e | Inr x \<Rightarrow> f x)"

fun mapE :: "('a \<Rightarrow> error + 'b) \<Rightarrow> 'a list \<Rightarrow> error + 'b list" where
  "mapE f [] = Inr []"
| "mapE f (x # xs) = bindE (f x) (\<lambda>y. bindE (mapE f xs) (\<lambda>ys. Inr (y # ys)))"

text \<open>\<^verbatim>\<open>s.split("\n")\<close>: never empty, the empty string gives one empty line.\<close>

fun split_nl :: "jsstring \<Rightarrow> jsstring list" where
  "split_nl [] = [[]]"
| "split_nl (c # cs) =
     (if c = NL then [] # split_nl cs
      else (case split_nl cs of l # ls \<Rightarrow> (c # l) # ls | [] \<Rightarrow> [[c]]))"

text \<open>\<^verbatim>\<open>xs.join(sep)\<close>\<close>

fun join :: "jsstring \<Rightarrow> jsstring list \<Rightarrow> jsstring" where
  "join sep [] = []"
| "join sep [x] = x"
| "join sep (x # y # ys) = x @ sep @ join sep (y # ys)"

text \<open>\<^verbatim>\<open>s.repeat(n)\<close> raises a RangeError for a negative count.\<close>

definition repeat :: "jsstring \<Rightarrow> int \<Rightarrow> error + jsstring" where
  "repeat s n = (if n < 0 then Inl RangeError else Inr (concat (replicate (nat n) s)))"

text \<open>
  \<^verbatim>\<open>Math.max(...xs)\<close>.  It is only applied to the line lengths of a split text,
  a list that is never empty (the value for the empty list, \<^verbatim>\<open>-Infinity\<close> in
  JavaScript, is never reached).
\<close>

fun Math_max :: "int list \<Rightarrow> int" where
  "Math_max [] = 0"
| "Math_max (x # xs) = fold max xs x"

section \<open>The environment: imported functions that live outside the sources\<close>

text \<open>
  The reporters and the box renderer import the colour functions of the package
  \<^verbatim>\<open>colorette\<close>, \<^verbatim>\<open>stripAnsi\<close> (utils/string), \<^verbatim>\<open>parseStack\<close> (utils/error),
  \<^verbatim>\<open>stringWidth\<close>, \<^verbatim>\<open>isUnicodeSupported\<close>, Node's \<^verbatim>\<open>formatWithOptions\<close> and the
  built-ins \<^verbatim>\<open>toUpperCase\<close>, \<^verbatim>\<open>toLocaleTimeString\<close> and the stack captured by
  \<^verbatim>\<open>new Error(msg)\<close>.  None of them is defined in the sources, so the model takes
  them as the fields of an environment, and every theorem that does not fix an
  environment holds for all of them.

  \<^item> \<open>colorette env name\<close> is the dynamic lookup \<^verbatim>\<open>(colors as any)[name]\<close>:
    \<open>None\<close> where the package exports nothing under that name;
  \<^item> \<open>gray\<close>, \<open>cyan\<close>, \<open>black\<close>, \<open>white\<close>, \<open>bgWhite\<close> are the exports the
    sources name statically;
  \<^item> a stream is known by its identity \<open>sid\<close> and its \<^verbatim>\<open>columns\<close> property;
    \<open>process_stdout\<close> and \<open>process_stderr\<close> are the streams of the process.

  An error-like value is an object on a heap, because its \<^verbatim>\<open>cause\<close> may refer to
  any error, itself included: \<open>JError a\<close> is the reference to the object at
  address \<open>a\<close>.  The \<^verbatim>\<open>errorLevel\<close> of the format options is a nesting depth, a
  natural number.
\<close>

type_synonym addr = nat

datatype jsval = JString jsstring | JError addr | JOther nat

record FormatOptions =
  columns :: "int option"
  date :: bool
  errorLevel :: "nat option"

record WriteStream =
  sid :: nat
  stream_columns :: "int option"

record env =
  colorette :: "jsstring \<Rightarrow> (jsstring \<Rightarrow> jsstring) option"
  gray :: "jsstring \<Rightarrow> jsstring"
  cyan :: "jsstring \<Rightarrow> jsstring"
  black :: "jsstring \<Rightarrow> jsstring"
  white :: "jsstring \<Rightarrow> jsstring"
  bgWhite :: "jsstring \<Rightarrow> jsstring"
  stripAnsi :: "jsstring \<Rightarrow> jsstring"
  stringWidth :: "jsstring \<Rightarrow> int"
  parseStack :: "jsstring \<Rightarrow> jsstring list"
  unicode :: bool
  formatWithOptions :: "FormatOptions \<Rightarrow> jsval list \<Rightarrow> jsstring"
  toUpperCase :: "jsstring \<Rightarrow> jsstring"
  toLocaleTimeString :: "nat \<Rightarrow> jsstring"
  captureStack :: "jsstring \<Rightarrow> jsstring"
  process_stdout :: WriteStream
  process_stderr :: WriteStream

subsection \<open>A concrete environment\<close>

text \<open>
  Modelled from the spec: \<^verbatim>\<open>stripAnsi\<close> of utils/string, which is not part of the
  sources.  The spec (4.1) asks that colour and style escape sequences are stripped
  before measuring: the model removes every SGR sequence, \<^verbatim>\<open>ESC [\<close>, digits and
  semicolons, \<^verbatim>\<open>m\<close>, and keeps everything else.
\<close>

definition is_sgr_param :: "jschar \<Rightarrow> bool" where
  "is_sgr_param c = ((48 \<le> c \<and> c \<le> 57) \<or> c = 59)"

text \<open>The text after the parameters and the final \<^verbatim>\<open>m\<close> of an SGR sequence, if there is one.\<close>

fun sgr_rest :: "jsstring \<Rightarrow> jsstring option" where
  "sgr_rest [] = None"
| "sgr_rest (c # cs) =
     (if c = 109 then Some cs else if is_sgr_param c then sgr_rest cs else None)"

lemma sgr_rest_length: "sgr_rest cs = Some r \<Longrightarrow> length r < length cs"
  by (induction cs) (auto split: if_splits)

function stripAnsi_sgr :: "jsstring \<Rightarrow> jsstring" where
  "stripAnsi_sgr [] = []"
| "stripAnsi_sgr (c # cs) =
     (if c = ESC \<and> cs \<noteq> [] \<and> hd cs = 91 \<and> sgr_rest (tl cs) \<noteq> None
      then stripAnsi_sgr (the (sgr_rest (tl cs)))
      else c # stripAnsi_sgr cs)"
  by pat_completeness auto
termination
proof (relation "measure length")
  fix c :: jschar and cs :: jsstring
  assume "c = ESC \<and> cs \<noteq> [] \<and> hd cs = 91 \<and> sgr_rest (tl cs) \<noteq> None"
  then obtain r where r: "sgr_rest (tl cs) = Some r" and ne: "cs \<noteq> []" by auto
  from sgr_rest_length [OF r] ne have "length r < length cs"
    by (cases cs) auto
  with r show "(the (sgr_rest (tl cs)), c # cs) \<in> measure length" by simp
qed simp_all

text \<open>
  The names the package \<^verbatim>\<open>colorette\<close> exports as colour functions.  With colour
  output switched off each of them returns its argument unchanged.
\<close>

definition colorette_names :: "jsstring list" where
  "colorette_names = map js
     [''reset'', ''bold'', ''dim'', ''italic'', ''underline'', ''inverse'', ''hidden'',
      ''strikethrough'', ''black'', ''red'', ''green'', ''yellow'', ''blue'', ''magenta'',
      ''cyan'', ''white'', ''gray'', ''bgBlack'', ''bgRed'', ''bgGreen'', ''bgYellow'',
      ''bgBlue'', ''bgMagenta'', ''bgCyan'', ''bgWhite'', ''blackBright'', ''redBright'',
      ''greenBright'', ''yellowBright'', ''blueBright'', ''magentaBright'', ''cyanBright'',
      ''whiteBright'', ''bgBlackBright'', ''bgRedBright'', ''bgGreenBright'',
      ''bgYellowBright'', ''bgBlueBright'', ''bgMagentaBright'', ''bgCyanBright'',
      ''bgWhiteBright'']"

text \<open>
  Modelled from the spec: \<^verbatim>\<open>parseStack\<close> of utils/error, which is not part of the
  sources.  The spec (4.2) has it discard the first line of the stack and the lines
  that are no frame; the model keeps the lines that, after their leading spaces, start
  with \<^verbatim>\<open>at\<close> and a space, without those leading spaces.
\<close>

definition parseStack_frames :: "jsstring \<Rightarrow> jsstring list" where
  "parseStack_frames stk =
     filter (\<lambda>l. take 3 l = js ''at '') (map (dropWhile (\<lambda>c. c = SP)) (tl (split_nl stk)))"

definition ascii_upper :: "jsstring \<Rightarrow> jsstring" where
  "ascii_upper s = map (\<lambda>c. if 97 \<le> c \<and> c \<le> 122 then c - 32 else c) s"

fun show_arg :: "jsval \<Rightarrow> jsstring" where
  "show_arg (JString s) = s"
| "show_arg (JError a) = js ''[Error]''"
| "show_arg (JOther n) = js ''[Object]''"

text \<open>
  The environment of the examples: a terminal without colour support (every colour
  function is the identity) but with Unicode; text of ASCII characters, for which the
  display width is the number of characters left after stripping and upper-casing is
  the ASCII one; arguments that are strings without format directives, which
  \<^verbatim>\<open>formatWithOptions\<close> joins with single spaces; a fixed clock and a fixed captured
  stack.
\<close>

definition plain_env :: env where
  "plain_env =
     \<lparr> colorette = (\<lambda>name. if name \<in> set colorette_names then Some (\<lambda>s. s) else None),
       gray = (\<lambda>s. s), cyan = (\<lambda>s. s), black = (\<lambda>s. s), white = (\<lambda>s. s), bgWhite = (\<lambda>s. s),
       stripAnsi = stripAnsi_sgr,
       stringWidth = (\<lambda>s. int (length (stripAnsi_sgr s))),
       parseStack = parseStack_frames,
       unicode = True,
       formatWithOptions = (\<lambda>opts vals. join [SP] (map show_arg vals)),
       toUpperCase = ascii_upper,
       toLocaleTimeString = (\<lambda>d. js ''12:00:00''),
       captureStack = (\<lambda>msg. js ''Error: '' @ msg @ [NL] @ js ''    at run (app.js:1:1)''),
       process_stdout = \<lparr> sid = 1, stream_columns = Some 80 \<rparr>,
       process_stderr = \<lparr> sid = 2, stream_columns = Some 80 \<rparr> \<rparr>"

section \<open>The box renderer (utils/box.ts)\<close>

record BoxBorderStyle =
  g_tl :: jsstring
  g_tr :: jsstring
  g_bl :: jsstring
  g_br :: jsstring
  g_h :: jsstring
  g_v :: jsstring

definition glyphs :: "jschar \<Rightarrow> jschar \<Rightarrow> jschar \<Rightarrow> jschar \<Rightarrow> jschar \<Rightarrow> jschar \<Rightarrow> BoxBorderStyle" where
  "glyphs a b c d e f = \<lparr> g_tl = [a], g_tr = [b], g_bl = [c], g_br = [d], g_h = [e], g_v = [f] \<rparr>"

definition boxStylePresets :: "jsstring \<Rightarrow> BoxBorderStyle option" where
  "boxStylePresets = map_of
     [(js ''solid'', glyphs 0x250C 0x2510 0x2514 0x2518 0x2500 0x2502),
      (js ''double'', glyphs 0x2554 0x2557 0x255A 0x255D 0x2550 0x2551),
      (js ''double-single'', glyphs 0x2553 0x2556 0x2559 0x255C 0x2500 0x2551),
      (js ''double-single-rounded'', glyphs 0x256D 0x256E 0x2570 0x256F 0x2500 0x2551),
      (js ''single-thick'', glyphs 0x250F 0x2513 0x2517 0x251B 0x2501 0x2503),
      (js ''single-double'', glyphs 0x2552 0x2555 0x2558 0x255B 0x2550 0x2502),
      (js ''single-double-rounded'', glyphs 0x256D 0x256E 0x2570 0x256F 0x2550 0x2502),
      (js ''rounded'', glyphs 0x256D 0x256E 0x2570 0x256F 0x2500 0x2502)]"

datatype valign = VTop | VCenter | VBottom

datatype borderStyleSpec = Preset jsstring | Custom BoxBorderStyle

record BoxStyle =
  borderColor :: jsstring
  borderStyle :: borderStyleSpec
  valign :: valign
  padding :: int

record BoxOpts =
  title :: "jsstring option"
  style :: "BoxStyle option"

definition defaultStyle :: BoxStyle where
  "defaultStyle = \<lparr> borderColor = js ''white'', borderStyle = Preset (js ''solid''),
                    valign = VCenter, padding = 2 \<rparr>"

text \<open>
  Lines 210-214: a preset name is looked up in the preset table; spreading the
  \<^verbatim>\<open>undefined\<close> of an unknown name leaves an object without glyphs, and the first
  \<^verbatim>\<open>borderStyle.h.repeat\<close> then raises a TypeError.
\<close>

definition resolveBorderStyle :: "borderStyleSpec \<Rightarrow> BoxBorderStyle option" where
  "resolveBorderStyle b = (case b of Preset name \<Rightarrow> boxStylePresets name | Custom g \<Rightarrow> Some g)"

text \<open>Lines 215-221: every glyph is passed through the colour function.\<close>

definition colorizeBorder :: "(jsstring \<Rightarrow> jsstring) \<Rightarrow> BoxBorderStyle \<Rightarrow> BoxBorderStyle" where
  "colorizeBorder color b =
     \<lparr> g_tl = color (g_tl b), g_tr = color (g_tr b), g_bl = color (g_bl b),
       g_br = color (g_br b), g_h = color (g_h b), g_v = color (g_v b) \<rparr>"

text \<open>
  Lines 193-199.  The options have the declared type: \<^verbatim>\<open>style\<close> is absent or a
  complete \<^verbatim>\<open>BoxStyle\<close>, so the merge with the default style takes the given style
  when there is one.
\<close>

definition mergedStyle :: "BoxOpts \<Rightarrow> BoxStyle" where
  "mergedStyle opts0 = (case style opts0 of None \<Rightarrow> defaultStyle | Some s \<Rightarrow> s)"

text \<open>
  Lines 208-221: the glyphs of the border, in the border colour; the colour function
  is the identity when the package has none of that name.
\<close>

definition boxBorder :: "env \<Rightarrow> BoxStyle \<Rightarrow> BoxBorderStyle option" where
  "boxBorder env st =
     map_option
       (colorizeBorder (case colorette env (borderColor st) of Some f \<Rightarrow> f | None \<Rightarrow> (\<lambda>t. t)))
       (resolveBorderStyle (borderStyle st))"

text \<open>
  Lines 224-225; the padding is an integer and \<^verbatim>\<open>%\<close> is the truncating
  remainder.
\<close>

definition paddingOffset_of :: "int \<Rightarrow> int" where
  "paddingOffset_of p = (if p smod 2 = 0 then p else p + 1)"

text \<open>Lines 233-250: the top line, with the title when it is a non-empty string.\<close>

definition topLine :: "env \<Rightarrow> BoxBorderStyle \<Rightarrow> jsstring option \<Rightarrow> int \<Rightarrow> int \<Rightarrow> int \<Rightarrow> error + jsstring" where
  "topLine env bs ttl width paddingOffset widthOffset =
     (if ttl \<noteq> None \<and> ttl \<noteq> Some [] then
        (let t = the ttl in
         bindE (repeat (g_h bs) ((width - int (length (stripAnsi env t))) div 2)) (\<lambda>left.
         bindE (repeat (g_h bs)
                  (width - int (length (stripAnsi env t)) - int (length (stripAnsi env left))
                     + paddingOffset)) (\<lambda>right.
         Inr (g_tl bs @ left @ t @ right @ g_tr bs))))
      else
        bindE (repeat (g_h bs) widthOffset) (\<lambda>rule. Inr (g_tl bs @ rule @ g_tr bs)))"

text \<open>Lines 253-258.\<close>

definition valignOffset_of :: "valign \<Rightarrow> int \<Rightarrow> int \<Rightarrow> int \<Rightarrow> int" where
  "valignOffset_of va height n paddingOffset =
     (case va of
        VCenter \<Rightarrow> (height - n) div 2
      | VTop \<Rightarrow> height - n - paddingOffset
      | VBottom \<Rightarrow> height - n)"

text \<open>Lines 261-272: the body of the loop over the rows \<open>i\<close>.\<close>

definition middleLine :: "env \<Rightarrow> BoxBorderStyle \<Rightarrow> jsstring list \<Rightarrow> int \<Rightarrow> int \<Rightarrow> int \<Rightarrow> int \<Rightarrow> int \<Rightarrow> error + jsstring" where
  "middleLine env bs textLines paddingOffset width widthOffset valignOffset i =
     (if i < valignOffset \<or> i \<ge> valignOffset + int (length textLines) then
        bindE (repeat [SP] widthOffset) (\<lambda>fill. Inr (g_v bs @ fill @ g_v bs))
      else
        (let line = textLines ! nat (i - valignOffset) in
         bindE (repeat [SP] paddingOffset) (\<lambda>left.
         bindE (repeat [SP] (width - int (length (stripAnsi env line)))) (\<lambda>right.
         Inr (g_v bs @ left @ line @ right @ g_v bs)))))"

text \<open>The function \<^verbatim>\<open>box\<close> (lines 192-281).\<close>

definition box :: "env \<Rightarrow> jsstring \<Rightarrow> BoxOpts \<Rightarrow> error + jsstring" where
  "box env text opts0 =
     (let st = mergedStyle opts0;
          textLines = split_nl text
      in case boxBorder env st of
           None \<Rightarrow> Inl TypeError
         | Some bs \<Rightarrow>
            (let paddingOffset = paddingOffset_of (padding st);
                 height = int (length textLines) + paddingOffset;
                 width = Math_max (map (\<lambda>line. int (length line)) textLines) + paddingOffset;
                 widthOffset = width + paddingOffset;
                 valignOffset = valignOffset_of (valign st) height (int (length textLines)) paddingOffset
             in bindE (topLine env bs (title opts0) width paddingOffset widthOffset) (\<lambda>top.
                bindE (mapE (middleLine env bs textLines paddingOffset width widthOffset valignOffset)
                         (map int [0..<nat height])) (\<lambda>middle.
                bindE (repeat (g_h bs) widthOffset) (\<lambda>rule.
                Inr (join [NL] (top # middle @ [g_bl bs @ rule @ g_br bs])))))))"

section \<open>The basic reporter (reporters/basic.ts)\<close>

record ErrorLike =
  message :: "jsstring option"
  stack :: "jsstring option"
  cause :: "addr option"

type_synonym heap = "addr \<Rightarrow> ErrorLike"

text \<open>
  A log record.  The fields \<^verbatim>\<open>type\<close>, \<^verbatim>\<open>date\<close>, \<^verbatim>\<open>title\<close>, \<^verbatim>\<open>style\<close> and
  \<^verbatim>\<open>message\<close> carry the prefix \<open>l\<close>, as their names are taken.  An absent tag is
  the empty string, the default of the logger; both are falsy wherever the tag is read.
\<close>

record LogObject =
  ltype :: jsstring
  level :: int
  args :: "jsval list"
  tag :: jsstring
  ldate :: nat
  ltitle :: "jsstring option"
  lstyle :: "BoxStyle option"
  badge :: "bool option"
  icon :: "jsstring option"
  lmessage :: "jsstring option"


text \<open>\<open>Basic\<close> and \<open>Fancy\<close> say which class \<^verbatim>\<open>this\<close> is an instance of.\<close>

datatype reporter = Basic | Fancy


text \<open>\<^verbatim>\<open>opts?.errorLevel || 0\<close>\<close>

definition errorLevel_or0 :: "FormatOptions \<Rightarrow> nat" where
  "errorLevel_or0 opts = (case errorLevel opts of Some l \<Rightarrow> l | None \<Rightarrow> 0)"

definition BasicReporter_formatStack :: "env \<Rightarrow> jsstring \<Rightarrow> FormatOptions \<Rightarrow> jsstring" where
  "BasicReporter_formatStack env stk opts =
     (let indent = concat (replicate (errorLevel_or0 opts + 1) (js ''  ''))
      in indent @ join ([NL] @ indent) (parseStack env stk))"

subsection \<open>The stack of the fancy reporter (reporters/fancy.ts, lines 40-53)\<close>

text \<open>\<^verbatim>\<open>line.replace(/^at +/, (m) => colors.gray(m))\<close>\<close>

definition replaceAt :: "env \<Rightarrow> jsstring \<Rightarrow> jsstring" where
  "replaceAt env line =
     (let spaces = takeWhile (\<lambda>c. c = SP) (drop 2 line)
      in if take 2 line = js ''at'' \<and> spaces \<noteq> []
         then gray env (js ''at'' @ spaces) @ dropWhile (\<lambda>c. c = SP) (drop 2 line)
         else line)"

text \<open>
  \<^verbatim>\<open>line.replace(/\((.+)\)/, (_, m) => `(${colors.cyan(m)})`)\<close>: the first opening
  parenthesis that has a closing one at least two places later on the same line; the
  group runs to the last such closing parenthesis.  The dot matches everything but
  the four line terminators.
\<close>

definition is_line_terminator :: "jschar \<Rightarrow> bool" where
  "is_line_terminator c = (c = 10 \<or> c = 13 \<or> c = 0x2028 \<or> c = 0x2029)"

fun last_index :: "jschar \<Rightarrow> jsstring \<Rightarrow> nat option" where
  "last_index x [] = None"
| "last_index x (c # cs) =
     (case last_index x cs of
        Some k \<Rightarrow> Some (Suc k)
      | None \<Rightarrow> if c = x then Some 0 else None)"

fun replaceParen :: "env \<Rightarrow> jsstring \<Rightarrow> jsstring" where
  "replaceParen env [] = []"
| "replaceParen env (c # cs) =
     (if c = 40 then
        (case last_index 41 (takeWhile (\<lambda>d. \<not> is_line_terminator d) cs) of
           Some (Suc k) \<Rightarrow> js ''('' @ cyan env (take (Suc k) cs) @ js '')'' @ drop (Suc (Suc k)) cs
         | _ \<Rightarrow> c # replaceParen env cs)
      else c # replaceParen env cs)"

definition FancyReporter_formatStack :: "env \<Rightarrow> jsstring \<Rightarrow> jsstring" where
  "FancyReporter_formatStack env stk =
     [NL] @ join [NL] (map (\<lambda>line. js ''  '' @ replaceParen env (replaceAt env line))
                         (parseStack env stk))"

text \<open>
  \<^verbatim>\<open>this.formatStack(stack, opts)\<close>: the fancy reporter overrides the method with one
  that takes the stack only.
\<close>

definition formatStack :: "reporter \<Rightarrow> env \<Rightarrow> jsstring \<Rightarrow> FormatOptions \<Rightarrow> jsstring" where
  "formatStack r env stk opts =
     (case r of Basic \<Rightarrow> BasicReporter_formatStack env stk opts
              | Fancy \<Rightarrow> FancyReporter_formatStack env stk)"

subsection \<open>Errors and their causes (lines 19-30)\<close>

text \<open>
  Line 29 without the cause: the prefix, the message (line 20), a newline and the
  stack (line 21).
\<close>

definition errorHead :: "reporter \<Rightarrow> env \<Rightarrow> heap \<Rightarrow> addr \<Rightarrow> FormatOptions \<Rightarrow> jsstring" where
  "errorHead r env hp a opts =
     (let err = hp a;
          msg = (case message err of Some m \<Rightarrow> m | None \<Rightarrow> formatWithOptions env opts [JError a]);
          stk = (case stack err of
                   Some s \<Rightarrow> if s \<noteq> [] then formatStack r env s opts else []
                 | None \<Rightarrow> []);
          level = errorLevel_or0 opts;
          causedPrefix = (if level > 0 then concat (replicate level (js ''  '')) @ js ''[cause]: '' else [])
      in causedPrefix @ msg @ [NL] @ stk)"

text \<open>
  The recursion through the causes has no bound in the source, so the function is
  partial: \<open>None\<close> says that the call returns no string.  (A JavaScript engine
  ends a recursion without end by a stack overflow error; there is no string either
  way.)
\<close>

partial_function (option) formatError :: "reporter \<Rightarrow> env \<Rightarrow> heap \<Rightarrow> addr \<Rightarrow> FormatOptions \<Rightarrow> jsstring option" where
  "formatError r env hp a opts =
     (case cause (hp a) of
        None \<Rightarrow> Some (errorHead r env hp a opts)
      | Some c \<Rightarrow>
          Option.bind (formatError r env hp c (opts\<lparr>errorLevel := Some (errorLevel_or0 opts + 1)\<rparr>))
            (\<lambda>causedError. Some (errorHead r env hp a opts @ [NL, NL] @ causedError)))"

declare formatError.simps [code]

text \<open>Lines 32-43: an argument with a string \<^verbatim>\<open>stack\<close> is replaced by its formatted error.\<close>

fun formatArg :: "reporter \<Rightarrow> env \<Rightarrow> heap \<Rightarrow> FormatOptions \<Rightarrow> jsval \<Rightarrow> jsval option" where
  "formatArg r env hp opts (JError a) =
     (if stack (hp a) \<noteq> None then map_option JString (formatError r env hp a opts)
      else Some (JError a))"
| "formatArg r env hp opts v = Some v"

definition formatArgs :: "reporter \<Rightarrow> env \<Rightarrow> heap \<Rightarrow> jsval list \<Rightarrow> FormatOptions \<Rightarrow> jsstring option" where
  "formatArgs r env hp as opts =
     map_option (formatWithOptions env opts) (those (map (formatArg r env hp opts) as))"

definition formatDate :: "env \<Rightarrow> nat \<Rightarrow> FormatOptions \<Rightarrow> jsstring" where
  "formatDate env d opts = (if date opts then toLocaleTimeString env d else [])"

definition filterAndJoin :: "jsstring list \<Rightarrow> jsstring" where
  "filterAndJoin arr = join [SP] (filter (\<lambda>x. x \<noteq> []) arr)"


section \<open>The fancy reporter (reporters/fancy.ts)\<close>

text \<open>
  The tables are object literals with string values.  A lookup \<^verbatim>\<open>table[key]\<close> finds
  the entry written in the literal; under a name that every object inherits from
  \<^verbatim>\<open>Object.prototype\<close> it finds the inherited member, a function or an object,
  which is truthy and no string; under any other key it finds \<^verbatim>\<open>undefined\<close>.
  The type names of the logger (\<^verbatim>\<open>LogType\<close>) are not among the inherited names.
  The level table is indexed by the number \<^verbatim>\<open>logObj.level\<close>, which is never such a
  name.
\<close>

datatype property = Value jsstring | Inherited | Undefined

definition Object_prototype_names :: "jsstring list" where
  "Object_prototype_names = map js
     [''constructor'', ''__defineGetter__'', ''__defineSetter__'', ''hasOwnProperty'',
      ''__lookupGetter__'', ''__lookupSetter__'', ''isPrototypeOf'',
      ''propertyIsEnumerable'', ''toString'', ''valueOf'', ''__proto__'',
      ''toLocaleString'']"

definition lookup :: "(jsstring \<Rightarrow> jsstring option) \<Rightarrow> jsstring \<Rightarrow> property" where
  "lookup table key =
     (case table key of
        Some v \<Rightarrow> Value v
      | None \<Rightarrow> if key \<in> set Object_prototype_names then Inherited else Undefined)"

definition TYPE_COLOR_MAP :: "jsstring \<Rightarrow> jsstring option" where
  "TYPE_COLOR_MAP = map_of
     [(js ''info'', js ''cyan''),
      (js ''fail'', js ''red''),
      (js ''success'', js ''green''),
      (js ''ready'', js ''green''),
      (js ''start'', js ''magenta'')]"

definition LEVEL_COLOR_MAP :: "int \<Rightarrow> jsstring option" where
  "LEVEL_COLOR_MAP = map_of [(0, js ''red''), (1, js ''yellow'')]"

definition s_icon :: "env \<Rightarrow> jsstring \<Rightarrow> jsstring \<Rightarrow> jsstring" where
  "s_icon env c fallback = (if unicode env then c else fallback)"

definition TYPE_ICONS :: "env \<Rightarrow> jsstring \<Rightarrow> jsstring option" where
  "TYPE_ICONS env = map_of
     [(js ''error'', s_icon env [0x2716] [0xD7]),
      (js ''fatal'', s_icon env [0x2716] [0xD7]),
      (js ''ready'', s_icon env [0x2714] [0x221A]),
      (js ''warn'', s_icon env [0x26A0] [0x203C]),
      (js ''info'', s_icon env [0x2139] (js ''i'')),
      (js ''success'', s_icon env [0x2714] [0x221A]),
      (js ''debug'', s_icon env [0x2699] (js ''D'')),
      (js ''trace'', s_icon env [0x2192] [0x2192]),
      (js ''fail'', s_icon env [0x2716] [0xD7]),
      (js ''start'', s_icon env [0x25D0] (js ''o'')),
      (js ''log'', [])]"

definition truthy :: "property \<Rightarrow> bool" where
  "truthy x = (case x of Value v \<Rightarrow> v \<noteq> [] | Inherited \<Rightarrow> True | Undefined \<Rightarrow> False)"

text \<open>Lines 56-59.\<close>

definition typeColor :: "LogObject \<Rightarrow> property" where
  "typeColor logObj =
     (if truthy (lookup TYPE_COLOR_MAP (ltype logObj)) then lookup TYPE_COLOR_MAP (ltype logObj)
      else (case LEVEL_COLOR_MAP (level logObj) of
              Some c \<Rightarrow> if c \<noteq> [] then Value c else Value (js ''gray'')
            | None \<Rightarrow> Value (js ''gray'')))"

text \<open>
  Lines 123-125.  The default \<^verbatim>\<open>"white"\<close> stands in for \<^verbatim>\<open>undefined\<close>.  An
  inherited member used as a key is no name of a colour function.
\<close>

definition getColor :: "env \<Rightarrow> property \<Rightarrow> jsstring \<Rightarrow> jsstring" where
  "getColor env color =
     (case color of
        Value c \<Rightarrow> (case colorette env c of Some f \<Rightarrow> f | None \<Rightarrow> white env)
      | Inherited \<Rightarrow> white env
      | Undefined \<Rightarrow> (case colorette env (js ''white'') of Some f \<Rightarrow> f | None \<Rightarrow> white env))"

text \<open>
  Lines 127-132, with the default \<^verbatim>\<open>"bgWhite"\<close> for \<^verbatim>\<open>undefined\<close>.
  \<^verbatim>\<open>color[0]\<close> of the empty string and of an inherited member is \<^verbatim>\<open>undefined\<close>,
  on which \<^verbatim>\<open>toUpperCase\<close> raises a TypeError.
\<close>

definition getBgColor :: "env \<Rightarrow> property \<Rightarrow> error + (jsstring \<Rightarrow> jsstring)" where
  "getBgColor env color =
     (case (case color of Undefined \<Rightarrow> Value (js ''bgWhite'') | _ \<Rightarrow> color) of
        Value (c # cs) \<Rightarrow>
          Inr (case colorette env (js ''bg'' @ toUpperCase env [c] @ cs) of
                 Some f \<Rightarrow> f
               | None \<Rightarrow> bgWhite env)
      | _ \<Rightarrow> Inl TypeError)"

text \<open>
  Lines 55-73.  An inherited member is no string, so only the icons written in the
  table count at line 68.
\<close>

definition FancyReporter_formatType :: "env \<Rightarrow> LogObject \<Rightarrow> bool \<Rightarrow> error + jsstring" where
  "FancyReporter_formatType env logObj isBadge =
     (if isBadge then
        bindE (getBgColor env (typeColor logObj)) (\<lambda>bg.
          Inr (bg (black env ([SP] @ toUpperCase env (ltype logObj) @ [SP]))))
      else
        (let t = (case TYPE_ICONS env (ltype logObj) of
                    Some i \<Rightarrow> i
                  | None \<Rightarrow> (case icon logObj of
                               Some i \<Rightarrow> if i \<noteq> [] then i else ltype logObj
                             | None \<Rightarrow> ltype logObj))
         in Inr (if t \<noteq> [] then getColor env (typeColor logObj) t else [])))"

text \<open>
  Lines 119-121, \<^verbatim>\<open>str.replace(/`([^`]+)`/gm, (_, m) => colors.cyan(m))\<close>.  The
  scan goes from left to right: at a backtick, the group takes all characters up to
  the next backtick; it matches when it is not empty and that backtick exists, and the
  scan goes on behind the closing backtick.  Otherwise the character is copied.
\<close>

function highlightBackticks :: "env \<Rightarrow> jsstring \<Rightarrow> jsstring" where
  "highlightBackticks env [] = []"
| "highlightBackticks env (c # cs) =
     (if c = BT \<and> takeWhile (\<lambda>d. d \<noteq> BT) cs \<noteq> [] \<and> dropWhile (\<lambda>d. d \<noteq> BT) cs \<noteq> []
      then cyan env (takeWhile (\<lambda>d. d \<noteq> BT) cs)
             @ highlightBackticks env (tl (dropWhile (\<lambda>d. d \<noteq> BT) cs))
      else c # highlightBackticks env cs)"
  by pat_completeness auto
termination
proof (relation "measure (\<lambda>(env, s). length s)")
  fix env :: env and c :: jschar and cs :: jsstring
  have "length (tl (dropWhile (\<lambda>d. d \<noteq> BT) cs)) \<le> length cs"
    using length_dropWhile_le [of "\<lambda>d. d \<noteq> BT" cs] by simp
  then show "((env, tl (dropWhile (\<lambda>d. d \<noteq> BT) cs)), env, c # cs) \<in> measure (\<lambda>(env, s). length s)"
    by simp
qed simp_all

text \<open>Lines 87-88 and 93: the date and the tag, in gray when they are not empty.\<close>

definition coloredDate :: "env \<Rightarrow> LogObject \<Rightarrow> FormatOptions \<Rightarrow> jsstring" where
  "coloredDate env logObj opts =
     (let d = formatDate env (ldate logObj) opts in if d \<noteq> [] then gray env d else d)"

definition coloredTag :: "env \<Rightarrow> LogObject \<Rightarrow> jsstring" where
  "coloredTag env logObj = (if tag logObj \<noteq> [] then gray env (tag logObj) else [])"

text \<open>\<^verbatim>\<open>opts.columns\<close> as a condition, and \<^verbatim>\<open>opts.columns || 0\<close>.\<close>

definition columns_truthy :: "FormatOptions \<Rightarrow> bool" where
  "columns_truthy opts = (case columns opts of Some c \<Rightarrow> c \<noteq> 0 | None \<Rightarrow> False)"

definition columns_or0 :: "FormatOptions \<Rightarrow> int" where
  "columns_or0 opts = (case columns opts of Some c \<Rightarrow> c | None \<Rightarrow> 0)"

text \<open>Line 97.\<close>

definition fancyRight :: "env \<Rightarrow> LogObject \<Rightarrow> FormatOptions \<Rightarrow> jsstring" where
  "fancyRight env logObj opts =
     filterAndJoin (if columns_truthy opts
                    then [coloredTag env logObj, coloredDate env logObj opts]
                    else [coloredTag env logObj])"

text \<open>Lines 98-104: the first line, from the left and the right segment.\<close>

definition fancyLine :: "env \<Rightarrow> FormatOptions \<Rightarrow> jsstring \<Rightarrow> jsstring \<Rightarrow> jsstring" where
  "fancyLine env opts left right =
     (let space = columns_or0 opts - stringWidth env left - stringWidth env right - 2
      in if space > 0 \<and> columns_or0 opts \<ge> 80
         then left @ replicate (nat space) SP @ right
         else (if right \<noteq> [] then gray env (js ''['' @ right @ js '']'') @ [SP] else []) @ left)"

text \<open>
  Lines 75-116, after the arguments have been formatted to \<open>formatted\<close>.  The split
  of a string is never empty, so there is always a first line.
\<close>

definition fancyLayout :: "env \<Rightarrow> LogObject \<Rightarrow> FormatOptions \<Rightarrow> jsstring \<Rightarrow> error + jsstring" where
  "fancyLayout env logObj opts formatted =
     (let msg = hd (split_nl formatted);
          additional = tl (split_nl formatted)
      in if ltype logObj = js ''box'' then
           box env (highlightBackticks env msg) \<lparr> title = ltitle logObj, style = lstyle logObj \<rparr>
         else
           (let isBadge = (case badge logObj of Some b \<Rightarrow> b | None \<Rightarrow> level logObj < 2)
            in bindE (FancyReporter_formatType env logObj isBadge) (\<lambda>type.
               (let left = filterAndJoin [type, highlightBackticks env msg];
                    right = fancyRight env logObj opts;
                    line1 = fancyLine env opts left right
                            @ highlightBackticks env
                                (if additional \<noteq> [] then [NL] @ join [NL] additional else []);
                    line2 = (if ltype logObj = js ''trace''
                             then line1 @ FancyReporter_formatStack env
                                    (captureStack env (js ''Trace: '' @
                                       (case lmessage logObj of Some m \<Rightarrow> m | None \<Rightarrow> js ''undefined'')))
                             else line1)
                in Inr (if isBadge then [NL] @ line2 @ [NL] else line2)))))"

definition FancyReporter_formatLogObj :: "env \<Rightarrow> heap \<Rightarrow> LogObject \<Rightarrow> FormatOptions \<Rightarrow> (error + jsstring) option" where
  "FancyReporter_formatLogObj env hp logObj opts =
     map_option (fancyLayout env logObj opts) (formatArgs Fancy env hp (args logObj) opts)"

section \<open>Writing the line (reporters/basic.ts, lines 78-93)\<close>









section \<open>Named quantities of a box\<close>

text \<open>
  The values of the variables \<^verbatim>\<open>paddingOffset\<close>, \<^verbatim>\<open>width\<close>, \<^verbatim>\<open>widthOffset\<close> and
  \<^verbatim>\<open>height\<close> of \<^verbatim>\<open>box\<close> (lines 224-229), as functions of its arguments, and a rule
  of \<open>k\<close> horizontal glyphs.
\<close>

definition paddingOffset :: "BoxOpts \<Rightarrow> int" where
  "paddingOffset opts = paddingOffset_of (padding (mergedStyle opts))"

definition boxWidth :: "jsstring \<Rightarrow> BoxOpts \<Rightarrow> int" where
  "boxWidth str opts =
     Math_max (map (\<lambda>line. int (length line)) (split_nl str)) + paddingOffset opts"

definition boxWidthOffset :: "jsstring \<Rightarrow> BoxOpts \<Rightarrow> int" where
  "boxWidthOffset str opts = boxWidth str opts + paddingOffset opts"

definition boxHeight :: "jsstring \<Rightarrow> BoxOpts \<Rightarrow> int" where
  "boxHeight str opts = int (length (split_nl str)) + paddingOffset opts"

definition hrule :: "BoxBorderStyle \<Rightarrow> nat \<Rightarrow> jsstring" where
  "hrule bs k = concat (replicate k (g_h bs))"

definition border_has_no_newline :: "BoxBorderStyle \<Rightarrow> bool" where
  "border_has_no_newline bs =
     (NL \<notin> set (g_tl bs) \<and> NL \<notin> set (g_tr bs) \<and> NL \<notin> set (g_bl bs)
      \<and> NL \<notin> set (g_br bs) \<and> NL \<notin> set (g_h bs) \<and> NL \<notin> set (g_v bs))"

definition title_has_no_newline :: "BoxOpts \<Rightarrow> bool" where
  "title_has_no_newline opts = (case title opts of Some t \<Rightarrow> NL \<notin> set t | None \<Rightarrow> True)"

text \<open>
  A string is self-contained when stripping it does not depend on what follows it: no
  escape sequence runs over its end.
\<close>

definition selfContained :: "env \<Rightarrow> jsstring \<Rightarrow> bool" where
  "selfContained env s = (\<forall>t. stripAnsi env (s @ t) = stripAnsi env s @ stripAnsi env t)"

section \<open>Texts with backtick spans\<close>

text \<open>
  A text cut at its backticks, the way the global replace of
  \<^verbatim>\<open>highlightBackticks\<close> scans it from left to right: plain pieces without
  backticks, spans \<^verbatim>\<open>`x`\<close> with \<open>x\<close> not empty and without backticks, and stray
  backticks, which open no span because the next character is a backtick too or
  because no backtick follows at all.  \<open>source_of\<close> is a piece as written,
  \<open>rendered\<close> what the claim expects in its place: the cyan \<open>x\<close> for the span
  \<^verbatim>\<open>`x`\<close>, and the piece itself otherwise.
\<close>

datatype segment = Plain jsstring | Span jsstring | Stray

fun source_of :: "segment \<Rightarrow> jsstring" where
  "source_of (Plain p) = p"
| "source_of (Span x) = [BT] @ x @ [BT]"
| "source_of Stray = [BT]"

fun rendered :: "env \<Rightarrow> segment \<Rightarrow> jsstring" where
  "rendered env (Plain p) = p"
| "rendered env (Span x) = cyan env x"
| "rendered env Stray = [BT]"

definition source :: "segment list \<Rightarrow> jsstring" where
  "source segs = concat (map source_of segs)"

definition renderedText :: "env \<Rightarrow> segment list \<Rightarrow> jsstring" where
  "renderedText env segs = concat (map (rendered env) segs)"

fun wf_segments :: "segment list \<Rightarrow> bool" where
  "wf_segments [] = True"
| "wf_segments (Plain p # segs) = (BT \<notin> set p \<and> wf_segments segs)"
| "wf_segments (Span x # segs) = (x \<noteq> [] \<and> BT \<notin> set x \<and> wf_segments segs)"
| "wf_segments (Stray # segs) =
     (wf_segments segs \<and> (take 1 (source segs) = [BT] \<or> BT \<notin> set (source segs)))"

text \<open>
  Lines 90 and 110-115 of the fancy reporter as functions of the record: whether the
  type is shown as a badge, the blank lines around the line of a badge, and the stack
  that a record of type \<^verbatim>\<open>trace\<close> appends.
\<close>

definition isBadge :: "LogObject \<Rightarrow> bool" where
  "isBadge logObj = (case badge logObj of Some b \<Rightarrow> b | None \<Rightarrow> level logObj < 2)"

definition badgeWrap :: "LogObject \<Rightarrow> jsstring \<Rightarrow> jsstring" where
  "badgeWrap logObj line = (if isBadge logObj then [NL] @ line @ [NL] else line)"

definition traceStack :: "env \<Rightarrow> LogObject \<Rightarrow> jsstring" where
  "traceStack env logObj =
     (if ltype logObj = js ''trace''
      then FancyReporter_formatStack env
             (captureStack env (js ''Trace: '' @
                (case lmessage logObj of Some m \<Rightarrow> m | None \<Rightarrow> js ''undefined'')))
      else [])"

text \<open>The lines after the first one, as line 107 joins them.\<close>

definition additionalText :: "jsstring list \<Rightarrow> jsstring" where
  "additionalText additional = (if additional \<noteq> [] then [NL] @ join [NL] additional else [])"

section \<open>The fallback chain of the colours\<close>

text \<open>
  The colour of a record in the words of the fallback chain: the entry of the type
  table, else the entry of the level table, else gray.
\<close>

definition fallbackColor :: "LogObject \<Rightarrow> jsstring" where
  "fallbackColor logObj =
     (case TYPE_COLOR_MAP (ltype logObj) of
        Some c \<Rightarrow> c
      | None \<Rightarrow> (case LEVEL_COLOR_MAP (level logObj) of Some c \<Rightarrow> c | None \<Rightarrow> js ''gray''))"

text \<open>Line 67-70: the icon of a record, or the text that stands in for it.\<close>

definition typeIcon :: "env \<Rightarrow> LogObject \<Rightarrow> jsstring" where
  "typeIcon env logObj =
     (case TYPE_ICONS env (ltype logObj) of
        Some i \<Rightarrow> i
      | None \<Rightarrow> (case icon logObj of
                   Some i \<Rightarrow> if i \<noteq> [] then i else ltype logObj
                 | None \<Rightarrow> ltype logObj))"

section \<open>Inputs of the examples\<close>

definition opts0 :: FormatOptions where
  "opts0 = \<lparr> columns = None, date = False, errorLevel = None \<rparr>"

definition innerStack :: jsstring where
  "innerStack = js ''Error: inner'' @ [NL] @ js ''    at g (b.js:2:2)''"

text \<open>An error at address 0 whose cause, at address 1, has no cause.\<close>

definition twoErrors :: heap where
  "twoErrors = (\<lambda>a. if a = 0
     then \<lparr> message = Some (js ''outer''),
            stack = Some (js ''Error: outer'' @ [NL] @ js ''    at f (a.js:1:1)''),
            cause = Some 1 \<rparr>
     else \<lparr> message = Some (js ''inner''), stack = Some innerStack, cause = None \<rparr>)"

text \<open>An error at address 0 that is its own cause.\<close>

definition selfCause :: heap where
  "selfCause = (\<lambda>a. \<lparr> message = Some (js ''boom''), stack = None, cause = Some 0 \<rparr>)"

definition appRecord :: LogObject where
  "appRecord = \<lparr> ltype = js ''info'', level = 3, args = [JString (js ''hello'')],
                 tag = js ''app'', ldate = 0, ltitle = None, lstyle = None, badge = None,
                 icon = None, lmessage = None \<rparr>"


definition npmRecord :: LogObject where
  "npmRecord = appRecord\<lparr> args := [JString (js ''run `npm i` or `'')] \<rparr>"

definition constructorRecord :: LogObject where
  "constructorRecord = appRecord\<lparr> ltype := js ''constructor'', level := 1 \<rparr>"

definition unknownRecord :: LogObject where
  "unknownRecord = appRecord\<lparr> ltype := js ''unknownType'', level := 1 \<rparr>"

text \<open>The text \<^verbatim>\<open>hi\<close> in red: twelve code units, two of them visible.\<close>

definition redHi :: jsstring where
  "redHi = [ESC] @ js ''[31mhi'' @ [ESC] @ js ''[39m''"

definition twoLines :: jsstring where
  "twoLines = js ''line1'' @ [NL] @ js ''line22''"

definition noOpts :: BoxOpts where
  "noOpts = \<lparr> title = None, style = None \<rparr>"

definition titleT :: BoxOpts where
  "titleT = \<lparr> title = Some (js ''T''), style = None \<rparr>"

definition titleTwoLines :: BoxOpts where
  "titleTwoLines = \<lparr> title = Some (js ''a'' @ [NL] @ js ''b''), style = None \<rparr>"

definition solidBorder :: BoxBorderStyle where
  "solidBorder = glyphs 0x250C 0x2510 0x2514 0x2518 0x2500 0x2502"

text \<open>The environment of the examples with a cyan that wraps its argument in SGR codes.\<close>

definition cyan_env :: env where
  "cyan_env = plain_env\<lparr> cyan := (\<lambda>s. [ESC] @ js ''[36m'' @ s @ [ESC] @ js ''[39m'') \<rparr>"

text \<open>
  The cause chain that starts at \<open>a\<close> ends after at most \<open>n\<close> steps at an error
  without a cause.
\<close>

fun causeChainEnds :: "heap \<Rightarrow> addr \<Rightarrow> nat \<Rightarrow> bool" where
  "causeChainEnds hp a 0 = (cause (hp a) = None)"
| "causeChainEnds hp a (Suc n) =
     (case cause (hp a) of None \<Rightarrow> True | Some c \<Rightarrow> causeChainEnds hp c n)"

text \<open>
  The heads of the first \<open>n + 1\<close> errors of a cause chain, each at the error level
  one above that of the error it is the cause of, with a blank line between two of
  them, and nothing else.
\<close>

fun formatCauses :: "nat \<Rightarrow> reporter \<Rightarrow> env \<Rightarrow> heap \<Rightarrow> addr \<Rightarrow> FormatOptions \<Rightarrow> jsstring" where
  "formatCauses 0 r env hp a opts = errorHead r env hp a opts"
| "formatCauses (Suc n) r env hp a opts =
     (case cause (hp a) of
        None \<Rightarrow> errorHead r env hp a opts
      | Some c \<Rightarrow>
          errorHead r env hp a opts @ [NL, NL]
            @ formatCauses n r env hp c (opts\<lparr>errorLevel := Some (errorLevel_or0 opts + 1)\<rparr>))"

section \<open>Padding normalisation\<close>

lemma paddingOffset_of_odd: "odd p \<Longrightarrow> paddingOffset_of p = paddingOffset_of (p + 1)"
  by (auto simp: paddingOffset_of_def signed_modulo_int_def sgn_if abs_if)
    (presburger+)?

text \<open>
  Claim C7.  The padding enters the computation only through its normalised value, so
  a box with padding 3 is the box with padding 4, whatever the text, the title, the
  other style fields and the environment are, error results included; the same holds
  for every odd padding and its successor.  The normalised value of an odd padding is
  its successor, which is even, and that of an even padding is the padding itself:
  the box of \<^verbatim>\<open>hi\<close> with padding 3 has the four columns and the four rows of
  padding 4.
\<close>

theorem box_padding_normalised:
  "box env str (opts\<lparr>style := Some (s\<lparr>padding := 3\<rparr>)\<rparr>)
     = box env str (opts\<lparr>style := Some (s\<lparr>padding := 4\<rparr>)\<rparr>)
   \<and> (\<forall>p. odd p \<longrightarrow>
        box env str (opts\<lparr>style := Some (s\<lparr>padding := p\<rparr>)\<rparr>)
          = box env str (opts\<lparr>style := Some (s\<lparr>padding := p + 1\<rparr>)\<rparr>))
   \<and> (\<forall>p. odd p \<longrightarrow>
        paddingOffset (opts\<lparr>style := Some (s\<lparr>padding := p\<rparr>)\<rparr>) = p + 1 \<and> even (p + 1))
   \<and> (\<forall>p. even p \<longrightarrow> paddingOffset (opts\<lparr>style := Some (s\<lparr>padding := p\<rparr>)\<rparr>) = p)
   \<and> box plain_env (js ''hi'') \<lparr> title = None, style = Some (defaultStyle\<lparr>padding := 3\<rparr>) \<rparr>
       = Inr (join [NL]
           [[0x250C] @ replicate 10 0x2500 @ [0x2510],
            [0x2502] @ js ''          '' @ [0x2502],
            [0x2502] @ js ''          '' @ [0x2502],
            [0x2502] @ js ''    hi    '' @ [0x2502],
            [0x2502] @ js ''          '' @ [0x2502],
            [0x2502] @ js ''          '' @ [0x2502],
            [0x2514] @ replicate 10 0x2500 @ [0x2518]])"
proof -
  have gen: "box env str (opts\<lparr>style := Some (s\<lparr>padding := p\<rparr>)\<rparr>)
          = box env str (opts\<lparr>style := Some (s\<lparr>padding := p + 1\<rparr>)\<rparr>)" if "odd p" for p
    using paddingOffset_of_odd [OF that]
    by (cases "resolveBorderStyle (borderStyle s)") (simp_all add: box_def mergedStyle_def boxBorder_def)
  have "odd (3::int)" by simp
  from gen [OF this]
  have 1: "box env str (opts\<lparr>style := Some (s\<lparr>padding := 3\<rparr>)\<rparr>)
     = box env str (opts\<lparr>style := Some (s\<lparr>padding := 4\<rparr>)\<rparr>)" by simp
  have po: "paddingOffset_of p = (if even p then p else p + 1)" for p
    by (auto simp: paddingOffset_of_def signed_modulo_int_def sgn_if abs_if) (presburger+)?
  have 3: "paddingOffset (opts\<lparr>style := Some (s\<lparr>padding := p\<rparr>)\<rparr>) = p + 1 \<and> even (p + 1)"
    if "odd p" for p
    using that by (simp add: paddingOffset_def mergedStyle_def po)
  have 4: "paddingOffset (opts\<lparr>style := Some (s\<lparr>padding := p\<rparr>)\<rparr>) = p" if "even p" for p
    using that by (simp add: paddingOffset_def mergedStyle_def po)
  have 5: "box plain_env (js ''hi'') \<lparr> title = None, style = Some (defaultStyle\<lparr>padding := 3\<rparr>) \<rparr>
       = Inr (join [NL]
           [[0x250C] @ replicate 10 0x2500 @ [0x2510],
            [0x2502] @ js ''          '' @ [0x2502],
            [0x2502] @ js ''          '' @ [0x2502],
            [0x2502] @ js ''    hi    '' @ [0x2502],
            [0x2502] @ js ''          '' @ [0x2502],
            [0x2502] @ js ''          '' @ [0x2502],
            [0x2514] @ replicate 10 0x2500 @ [0x2518]])"
    by code_simp
  from gen have all_odd: "\<forall>p. odd p \<longrightarrow>
        box env str (opts\<lparr>style := Some (s\<lparr>padding := p\<rparr>)\<rparr>)
          = box env str (opts\<lparr>style := Some (s\<lparr>padding := p + 1\<rparr>)\<rparr>)" by blast
  from 3 have off_odd: "\<forall>p. odd p \<longrightarrow>
        paddingOffset (opts\<lparr>style := Some (s\<lparr>padding := p\<rparr>)\<rparr>) = p + 1 \<and> even (p + 1)" by blast
  from 4 have off_even: "\<forall>p. even p \<longrightarrow> paddingOffset (opts\<lparr>style := Some (s\<lparr>padding := p\<rparr>)\<rparr>) = p"
    by blast
  from 1 all_odd off_odd off_even 5 show ?thesis by (intro conjI)
qed

theorem box_padding_normalised_witness:
  "odd (3::int) \<and>
   box plain_env (js ''hi'') \<lparr> title = None, style = Some (defaultStyle\<lparr>padding := 3\<rparr>) \<rparr>
     = box plain_env (js ''hi'') \<lparr> title = None, style = Some (defaultStyle\<lparr>padding := 3 + 1\<rparr>) \<rparr>
   \<and> paddingOffset \<lparr> title = None, style = Some (defaultStyle\<lparr>padding := 3\<rparr>) \<rparr> = 3 + 1"
proof -
  note main = box_padding_normalised [where env = plain_env and str = "js ''hi''"
      and opts = "\<lparr> title = None, style = None \<rparr>" and s = defaultStyle]
  have o: "odd (3::int)" by simp
  from main have "\<forall>p. odd p \<longrightarrow>
        box plain_env (js ''hi'') (\<lparr> title = None, style = None \<rparr>\<lparr>style := Some (defaultStyle\<lparr>padding := p\<rparr>)\<rparr>)
          = box plain_env (js ''hi'') (\<lparr> title = None, style = None \<rparr>\<lparr>style := Some (defaultStyle\<lparr>padding := p + 1\<rparr>)\<rparr>)"
    by (rule conjunct2 [THEN conjunct1])
  with o have a: "box plain_env (js ''hi'') \<lparr> title = None, style = Some (defaultStyle\<lparr>padding := 3\<rparr>) \<rparr>
     = box plain_env (js ''hi'') \<lparr> title = None, style = Some (defaultStyle\<lparr>padding := 3 + 1\<rparr>) \<rparr>"
    by simp
  from main have "\<forall>p. odd p \<longrightarrow>
        paddingOffset (\<lparr> title = None, style = None \<rparr>\<lparr>style := Some (defaultStyle\<lparr>padding := p\<rparr>)\<rparr>) = p + 1 \<and> even (p + 1)"
    by (rule conjunct2 [THEN conjunct2, THEN conjunct1])
  with o have b: "paddingOffset \<lparr> title = None, style = Some (defaultStyle\<lparr>padding := 3\<rparr>) \<rparr> = 3 + 1"
    by simp
  from o a b show ?thesis by (intro conjI)
qed

section \<open>Errors and their causes\<close>

lemma formatError_returns_chain:
  assumes main: "formatError r env hp a opts = Some y"
  shows "\<exists>n. causeChainEnds hp a n"
proof (rule formatError.raw_induct
    [where P = "\<lambda>r env hp a opts y. \<exists>n. causeChainEnds hp a n", OF _ main])
  fix f :: "reporter \<Rightarrow> env \<Rightarrow> heap \<Rightarrow> addr \<Rightarrow> FormatOptions \<Rightarrow> jsstring option"
    and r env hp a opts y
  assume IH: "\<And>r env hp a opts y. f r env hp a opts = Some y \<Longrightarrow> \<exists>n. causeChainEnds hp a n"
    and step: "(case cause (hp a) of
        None \<Rightarrow> Some (errorHead r env hp a opts)
      | Some c \<Rightarrow>
          Option.bind (f r env hp c (opts\<lparr>errorLevel := Some (errorLevel_or0 opts + 1)\<rparr>))
            (\<lambda>causedError. Some (errorHead r env hp a opts @ [NL, NL] @ causedError))) = Some y"
  show "\<exists>n. causeChainEnds hp a n"
  proof (cases "cause (hp a)")
    case None
    then have "causeChainEnds hp a 0" by simp
    then show ?thesis ..
  next
    case (Some c)
    with step obtain z
      where "f r env hp c (opts\<lparr>errorLevel := Some (errorLevel_or0 opts + 1)\<rparr>) = Some z"
      by (auto simp: bind_eq_Some_conv)
    from IH [OF this] obtain n where "causeChainEnds hp c n" ..
    with Some have "causeChainEnds hp a (Suc n)" by simp
    then show ?thesis ..
  qed
qed

lemma formatError_chain_returns:
  "causeChainEnds hp a n \<Longrightarrow> \<exists>y. formatError r env hp a opts = Some y"
proof (induction n arbitrary: a opts)
  case 0
  then show ?case by (subst formatError.simps) simp
next
  case (Suc n)
  show ?case
  proof (cases "cause (hp a)")
    case None
    then show ?thesis by (subst formatError.simps) simp
  next
    case (Some c)
    with Suc.prems have "causeChainEnds hp c n" by simp
    from Suc.IH [OF this] obtain z where
      "formatError r env hp c (opts\<lparr>errorLevel := Some (errorLevel_or0 opts + 1)\<rparr>) = Some z"
      by blast
    with Some show ?thesis by (subst formatError.simps) simp
  qed
qed

lemma selfCause_no_end: "\<not> causeChainEnds selfCause a n"
  by (induction n arbitrary: a) (simp_all add: selfCause_def)

lemma formatError_chain_value:
  "causeChainEnds hp a n \<Longrightarrow> formatError r env hp a opts = Some (formatCauses n r env hp a opts)"
proof (induction n arbitrary: a opts)
  case 0
  then show ?case by (subst formatError.simps) simp
next
  case (Suc n)
  show ?case
  proof (cases "cause (hp a)")
    case None
    then show ?thesis by (subst formatError.simps) simp
  next
    case (Some c)
    with Suc.prems have "causeChainEnds hp c n" by simp
    from Suc.IH [OF this]
    have "formatError r env hp c (opts\<lparr>errorLevel := Some (errorLevel_or0 opts + 1)\<rparr>)
        = Some (formatCauses n r env hp c (opts\<lparr>errorLevel := Some (errorLevel_or0 opts + 1)\<rparr>))" .
    with Some show ?thesis by (subst formatError.simps) simp
  qed
qed

text \<open>
  Claim C2, as the source has it.  \<^verbatim>\<open>formatError\<close> returns a string exactly for the
  errors whose chain of causes ends; the recursion has no depth bound and no mark for
  a truncated output, with either reporter and any format options: the string is the
  head of every error of the chain, each formatted once and one error level above
  the error it is the cause of, and nothing else.
\<close>

theorem formatError_returns_iff_chain_ends:
  "((\<exists>y. formatError r env hp a opts = Some y) \<longleftrightarrow> (\<exists>n. causeChainEnds hp a n))
   \<and> (\<forall>n. causeChainEnds hp a n \<longrightarrow>
         formatError r env hp a opts = Some (formatCauses n r env hp a opts))"
  using formatError_returns_chain formatError_chain_returns formatError_chain_value by blast

theorem formatError_returns_iff_chain_ends_witness:
  "causeChainEnds twoErrors 0 1 \<and> (\<exists>y. formatError Basic plain_env twoErrors 0 opts0 = Some y)
   \<and> formatError Basic plain_env twoErrors 0 opts0
       = Some (js ''outer'' @ [NL] @ js ''  at f (a.js:1:1)'' @ [NL, NL]
               @ js ''  [cause]: inner'' @ [NL] @ js ''    at g (b.js:2:2)'')"
proof -
  have c: "causeChainEnds twoErrors 0 1" by (simp add: twoErrors_def)
  note main = formatError_returns_iff_chain_ends [of Basic plain_env twoErrors 0 opts0]
  from main c have e: "\<exists>y. formatError Basic plain_env twoErrors 0 opts0 = Some y" by blast
  have v: "formatCauses 1 Basic plain_env twoErrors 0 opts0
       = js ''outer'' @ [NL] @ js ''  at f (a.js:1:1)'' @ [NL, NL]
               @ js ''  [cause]: inner'' @ [NL] @ js ''    at g (b.js:2:2)''"
    by code_simp
  from main c have "formatError Basic plain_env twoErrors 0 opts0
      = Some (formatCauses 1 Basic plain_env twoErrors 0 opts0)" by blast
  with v have f: "formatError Basic plain_env twoErrors 0 opts0
       = Some (js ''outer'' @ [NL] @ js ''  at f (a.js:1:1)'' @ [NL, NL]
               @ js ''  [cause]: inner'' @ [NL] @ js ''    at g (b.js:2:2)'')" by simp
  from c e f show ?thesis by (intro conjI)
qed

text \<open>
  Claim C2, as stated, fails: for the error that is its own cause the call does not
  return, so there is no output, truncated or not.
\<close>

theorem formatError_selfCause_diverges:
  "formatError Basic plain_env selfCause 0 opts0 = None"
proof (cases "formatError Basic plain_env selfCause 0 opts0")
  case None
  then show ?thesis .
next
  case (Some y)
  from formatError_returns_chain [OF this] selfCause_no_end show ?thesis by blast
qed

lemma formatError_twoErrors_Basic:
  "formatError Basic plain_env twoErrors 0 opts0 =
     Some (js ''outer'' @ [NL] @ js ''  at f (a.js:1:1)'' @ [NL, NL]
           @ js ''  [cause]: inner'' @ [NL] @ js ''    at g (b.js:2:2)'')"
  by code_simp

section \<open>Indentation of the stack frames\<close>

lemma join_indent:
  "fs \<noteq> [] \<Longrightarrow> ind @ join ([NL] @ ind) fs = join [NL] (map (\<lambda>f. ind @ f) fs)"
proof (induction fs)
  case Nil
  then show ?case by simp
next
  case (Cons f fs)
  then show ?case by (cases fs) simp_all
qed

lemma concat_replicate_two_spaces: "concat (replicate n (js ''  '')) = replicate (2 * n) SP"
  by (induction n) (simp_all add: js_def SP_def)

text \<open>
  The basic reporter puts \<open>2 * (errorLevel + 1)\<close> spaces in front of every frame.
\<close>

lemma BasicReporter_formatStack_lines:
  "parseStack env stk \<noteq> [] \<Longrightarrow>
   BasicReporter_formatStack env stk opts =
     join [NL] (map (\<lambda>f. replicate (2 * (errorLevel_or0 opts + 1)) SP @ f) (parseStack env stk))"
  using join_indent [of "parseStack env stk" "replicate (2 * (errorLevel_or0 opts + 1)) SP"]
  by (simp add: BasicReporter_formatStack_def concat_replicate_two_spaces del: replicate_Suc)

text \<open>
  Claim C4 fails for the fancy reporter.  Its \<^verbatim>\<open>formatStack\<close> takes the stack
  only, so the frames of a cause, formatted at error level 1, get two spaces where the
  basic reporter gives them four; the result never depends on the error level.
\<close>

theorem FancyReporter_formatStack_ignores_errorLevel:
  "formatStack Fancy env stk (opts\<lparr>errorLevel := l\<rparr>) = formatStack Fancy env stk opts
   \<and> formatStack Fancy plain_env innerStack (opts0\<lparr>errorLevel := Some 1\<rparr>)
       = [NL] @ js ''  at g (b.js:2:2)''
   \<and> formatStack Basic plain_env innerStack (opts0\<lparr>errorLevel := Some 1\<rparr>)
       = js ''    at g (b.js:2:2)''
   \<and> formatError Fancy plain_env twoErrors 0 opts0 =
       Some (js ''outer'' @ [NL, NL] @ js ''  at f (a.js:1:1)'' @ [NL, NL]
             @ js ''  [cause]: inner'' @ [NL, NL] @ js ''  at g (b.js:2:2)'')"
proof -
  have 1: "formatStack Fancy env stk (opts\<lparr>errorLevel := l\<rparr>) = formatStack Fancy env stk opts"
    by (simp add: formatStack_def)
  have 2: "formatStack Fancy plain_env innerStack (opts0\<lparr>errorLevel := Some 1\<rparr>)
       = [NL] @ js ''  at g (b.js:2:2)''"
    by code_simp
  have 3: "formatStack Basic plain_env innerStack (opts0\<lparr>errorLevel := Some 1\<rparr>)
       = js ''    at g (b.js:2:2)''"
    by code_simp
  have 4: "formatError Fancy plain_env twoErrors 0 opts0 =
       Some (js ''outer'' @ [NL, NL] @ js ''  at f (a.js:1:1)'' @ [NL, NL]
             @ js ''  [cause]: inner'' @ [NL, NL] @ js ''  at g (b.js:2:2)'')"
    by code_simp
  from 1 2 3 4 show ?thesis by blast
qed

section \<open>The right-hand segment of the fancy layout\<close>

lemma filterAndJoin_single: "filterAndJoin [x] = x"
  by (simp add: filterAndJoin_def)

text \<open>
  Claim C3, as the source has it.  The date joins the tag in the right-hand segment
  as soon as the column count is not zero, below 80 as well; only an unknown or zero
  column count leaves the tag alone.  The bound 80 decides the layout: below it the
  segment is printed in brackets in front of the left-hand segment.
\<close>

theorem fancyRight_by_columns:
  "(columns opts = None \<or> columns opts = Some 0 \<longrightarrow>
      fancyRight env logObj opts = coloredTag env logObj)
   \<and> (\<forall>c. columns opts = Some c \<and> c \<noteq> 0 \<longrightarrow>
      fancyRight env logObj opts
        = filterAndJoin [coloredTag env logObj, coloredDate env logObj opts])
   \<and> (columns_or0 opts < 80 \<longrightarrow>
      fancyLine env opts left right
        = (if right \<noteq> [] then gray env (js ''['' @ right @ js '']'') @ [SP] else []) @ left)"
  by (auto simp: fancyRight_def columns_truthy_def columns_or0_def fancyLine_def
      filterAndJoin_single Let_def)

theorem fancyRight_by_columns_witness:
  "columns (opts0\<lparr>columns := Some 40, date := True\<rparr>) = Some 40 \<and> (40::int) \<noteq> 0
   \<and> fancyRight plain_env appRecord (opts0\<lparr>columns := Some 40, date := True\<rparr>)
       = filterAndJoin [js ''app'', js ''12:00:00'']
   \<and> fancyRight plain_env appRecord opts0 = js ''app''"
proof -
  have tg: "coloredTag plain_env appRecord = js ''app''" by code_simp
  have dt: "coloredDate plain_env appRecord (opts0\<lparr>columns := Some 40, date := True\<rparr>) = js ''12:00:00''"
    by code_simp
  have c0: "columns opts0 = None" by (simp add: opts0_def)
  show ?thesis
    using fancyRight_by_columns [of "opts0\<lparr>columns := Some 40, date := True\<rparr>" plain_env appRecord]
      fancyRight_by_columns [of opts0 plain_env appRecord] tg dt c0
    by simp
qed

text \<open>
  Claim C3, as stated, fails: with 40 columns and the date switched on the right-hand
  segment carries the date, and the line shows it in the bracket.
\<close>

theorem fancyRight_below_80_has_date:
  "fancyRight plain_env appRecord (opts0\<lparr>columns := Some 40, date := True\<rparr>) = js ''app 12:00:00''
   \<and> coloredTag plain_env appRecord = js ''app''
   \<and> js ''app 12:00:00'' \<noteq> js ''app''
   \<and> FancyReporter_formatLogObj plain_env twoErrors appRecord (opts0\<lparr>columns := Some 40, date := True\<rparr>)
       = Some (Inr (js ''[app 12:00:00] '' @ [0x2139] @ js '' hello''))"
proof -
  have 1: "fancyRight plain_env appRecord (opts0\<lparr>columns := Some 40, date := True\<rparr>) = js ''app 12:00:00''"
    by code_simp
  have 2: "coloredTag plain_env appRecord = js ''app''" by code_simp
  have 3: "js ''app 12:00:00'' \<noteq> js ''app''" by (simp add: js_def)
  have 4: "FancyReporter_formatLogObj plain_env twoErrors appRecord (opts0\<lparr>columns := Some 40, date := True\<rparr>)
       = Some (Inr (js ''[app 12:00:00] '' @ [0x2139] @ js '' hello''))"
    by code_simp
  from 1 2 3 4 show ?thesis by blast
qed

section \<open>The colour of a type\<close>

lemma TYPE_COLOR_MAP_nonempty: "TYPE_COLOR_MAP k = Some c \<Longrightarrow> c \<noteq> []"
  by (auto simp: TYPE_COLOR_MAP_def js_def split: if_splits)

lemma LEVEL_COLOR_MAP_nonempty: "LEVEL_COLOR_MAP k = Some c \<Longrightarrow> c \<noteq> []"
  by (auto simp: LEVEL_COLOR_MAP_def js_def split: if_splits)

lemma fallbackColor_nonempty: "fallbackColor logObj \<noteq> []"
  by (auto simp: fallbackColor_def js_def
      dest: TYPE_COLOR_MAP_nonempty LEVEL_COLOR_MAP_nonempty split: option.splits)

lemma typeColor_of_type:
  "TYPE_COLOR_MAP (ltype logObj) = Some c \<Longrightarrow> typeColor logObj = Value (fallbackColor logObj)"
  by (auto simp: typeColor_def fallbackColor_def lookup_def truthy_def dest: TYPE_COLOR_MAP_nonempty)

lemma typeColor_of_level:
  assumes "TYPE_COLOR_MAP (ltype logObj) = None" "ltype logObj \<notin> set Object_prototype_names"
  shows "typeColor logObj = Value (fallbackColor logObj)"
  using assms
  by (auto simp: typeColor_def fallbackColor_def lookup_def truthy_def
      dest: LEVEL_COLOR_MAP_nonempty split: option.splits)

lemma typeColor_fallbackColor:
  "ltype logObj \<notin> set Object_prototype_names \<Longrightarrow> typeColor logObj = Value (fallbackColor logObj)"
  by (cases "TYPE_COLOR_MAP (ltype logObj)") (simp_all add: typeColor_of_level typeColor_of_type)

lemma unknownType_not_inherited: "js ''unknownType'' \<notin> set Object_prototype_names"
  by (simp add: Object_prototype_names_def js_def)

text \<open>
  Claim C6, as the source has it.  For a record whose type is not the name of a
  member that objects inherit from \<^verbatim>\<open>Object.prototype\<close>, which holds for every type
  of the logger and for \<^verbatim>\<open>unknownType\<close>, the colour is the entry of the type table
  when the type has one, else the entry of the level table when the level has one,
  else gray; a record of type \<^verbatim>\<open>unknownType\<close> and level 1 gets yellow, the colour
  of level 1, which is not gray.  Nothing raises: the badge is the upper-case type
  between two spaces, in black on the background of that colour (on white when the
  package has no such background), and the icon is in that colour (in white when the
  package has no such colour).
\<close>

theorem typeColor_fallback_chain:
  assumes "ltype logObj \<notin> set Object_prototype_names"
  shows "typeColor logObj = Value (fallbackColor logObj)
   \<and> FancyReporter_formatType env logObj True =
       Inr ((case colorette env (js ''bg'' @ toUpperCase env [hd (fallbackColor logObj)]
                                  @ tl (fallbackColor logObj)) of
               Some f \<Rightarrow> f
             | None \<Rightarrow> bgWhite env)
              (black env ([SP] @ toUpperCase env (ltype logObj) @ [SP])))
   \<and> FancyReporter_formatType env logObj False =
       Inr (if typeIcon env logObj \<noteq> []
            then (case colorette env (fallbackColor logObj) of Some f \<Rightarrow> f | None \<Rightarrow> white env)
                   (typeIcon env logObj)
            else [])
   \<and> fallbackColor (logObj\<lparr>ltype := js ''unknownType'', level := 1\<rparr>) = js ''yellow''
   \<and> typeColor (logObj\<lparr>ltype := js ''unknownType'', level := 1\<rparr>) = Value (js ''yellow'')
   \<and> LEVEL_COLOR_MAP 1 = Some (js ''yellow'')
   \<and> js ''yellow'' \<noteq> js ''gray''"
proof -
  note tc = typeColor_fallbackColor [OF assms]
  obtain c cs where col: "fallbackColor logObj = c # cs"
    using fallbackColor_nonempty [of logObj] by (cases "fallbackColor logObj") auto
  have badge: "FancyReporter_formatType env logObj True =
       Inr ((case colorette env (js ''bg'' @ toUpperCase env [hd (fallbackColor logObj)]
                                  @ tl (fallbackColor logObj)) of
               Some f \<Rightarrow> f
             | None \<Rightarrow> bgWhite env)
              (black env ([SP] @ toUpperCase env (ltype logObj) @ [SP])))"
    by (simp add: FancyReporter_formatType_def tc col getBgColor_def bindE_def)
  have ic: "FancyReporter_formatType env logObj False =
       Inr (if typeIcon env logObj \<noteq> []
            then (case colorette env (fallbackColor logObj) of Some f \<Rightarrow> f | None \<Rightarrow> white env)
                   (typeIcon env logObj)
            else [])"
    by (simp add: FancyReporter_formatType_def tc getColor_def typeIcon_def Let_def)
  have 2: "LEVEL_COLOR_MAP 1 = Some (js ''yellow'')" by (simp add: LEVEL_COLOR_MAP_def)
  have "TYPE_COLOR_MAP (js ''unknownType'') = None"
    by (simp add: TYPE_COLOR_MAP_def js_def)
  with 2 have fy: "fallbackColor (logObj\<lparr>ltype := js ''unknownType'', level := 1\<rparr>) = js ''yellow''"
    by (simp add: fallbackColor_def)
  have ty: "typeColor (logObj\<lparr>ltype := js ''unknownType'', level := 1\<rparr>) = Value (js ''yellow'')"
    using typeColor_fallbackColor [of "logObj\<lparr>ltype := js ''unknownType'', level := 1\<rparr>"]
      unknownType_not_inherited fy by simp
  have 3: "js ''yellow'' \<noteq> js ''gray''" by (simp add: js_def)
  from tc badge ic fy ty 2 3 show ?thesis by (intro conjI)
qed

theorem typeColor_fallback_chain_witness:
  "ltype unknownRecord \<notin> set Object_prototype_names
   \<and> typeColor unknownRecord = Value (js ''yellow'')
   \<and> FancyReporter_formatType plain_env unknownRecord True = Inr (js '' UNKNOWNTYPE '')
   \<and> FancyReporter_formatType plain_env unknownRecord False = Inr (js ''unknownType'')
   \<and> typeColor appRecord = Value (js ''cyan'')"
proof -
  have a: "ltype unknownRecord \<notin> set Object_prototype_names"
    using unknownType_not_inherited by (simp add: unknownRecord_def)
  have b: "ltype appRecord \<notin> set Object_prototype_names"
    by (simp add: appRecord_def Object_prototype_names_def js_def)
  have fu: "fallbackColor unknownRecord = js ''yellow''" by code_simp
  have fa: "fallbackColor appRecord = js ''cyan''" by code_simp
  have bg: "(case colorette plain_env (js ''bg'' @ toUpperCase plain_env [hd (js ''yellow'')]
                                  @ tl (js ''yellow'')) of
               Some f \<Rightarrow> f
             | None \<Rightarrow> bgWhite plain_env)
              (black plain_env ([SP] @ toUpperCase plain_env (ltype unknownRecord) @ [SP]))
        = js '' UNKNOWNTYPE ''"
    by code_simp
  have ic: "(if typeIcon plain_env unknownRecord \<noteq> []
            then (case colorette plain_env (js ''yellow'') of Some f \<Rightarrow> f | None \<Rightarrow> white plain_env)
                   (typeIcon plain_env unknownRecord)
            else []) = js ''unknownType''"
    by code_simp
  note u = typeColor_fallback_chain [OF a, of plain_env, unfolded fu]
  note p = typeColor_fallback_chain [OF b, of plain_env, unfolded fa]
  from u have 1: "typeColor unknownRecord = Value (js ''yellow'')" by (rule conjunct1)
  from u have 2: "FancyReporter_formatType plain_env unknownRecord True = Inr (js '' UNKNOWNTYPE '')"
    unfolding bg by (rule conjunct2 [THEN conjunct1])
  from u have 3: "FancyReporter_formatType plain_env unknownRecord False = Inr (js ''unknownType'')"
    unfolding ic by (rule conjunct2 [THEN conjunct2, THEN conjunct1])
  from p have 4: "typeColor appRecord = Value (js ''cyan'')" by (rule conjunct1)
  from a 1 2 3 4 show ?thesis by (intro conjI)
qed

text \<open>
  Claim C6, as stated, fails for a record whose type is the name of an inherited
  member: the type \<^verbatim>\<open>constructor\<close> has no entry in the type table and level 1 has
  the colour yellow, but the lookup finds the inherited function, which is taken as
  the colour, and the badge of the record raises a TypeError.
\<close>

theorem typeColor_constructor_inherited:
  "TYPE_COLOR_MAP (ltype constructorRecord) = None
   \<and> fallbackColor constructorRecord = js ''yellow''
   \<and> typeColor constructorRecord = Inherited
   \<and> Inherited \<noteq> Value (js ''yellow'')
   \<and> FancyReporter_formatType plain_env constructorRecord True = Inl TypeError"
proof -
  have 1: "TYPE_COLOR_MAP (ltype constructorRecord) = None" by code_simp
  have 2: "fallbackColor constructorRecord = js ''yellow''" by code_simp
  have 3: "typeColor constructorRecord = Inherited" by code_simp
  have 4: "Inherited \<noteq> Value (js ''yellow'')" by simp
  have 5: "FancyReporter_formatType plain_env constructorRecord True = Inl TypeError" by code_simp
  from 1 2 3 4 5 show ?thesis by (intro conjI)
qed

section \<open>The stream of a line\<close>



section \<open>The rows of a box\<close>

lemma split_nl_nonempty: "split_nl s \<noteq> []"
  by (induction s) (auto split: list.splits)

lemma split_nl_single: "NL \<notin> set r \<Longrightarrow> split_nl r = [r]"
  by (induction r) auto

lemma split_nl_append_NL: "NL \<notin> set r \<Longrightarrow> split_nl (r @ NL # rest) = r # split_nl rest"
  by (induction r) auto

lemma split_nl_lines_no_NL: "l \<in> set (split_nl s) \<Longrightarrow> NL \<notin> set l"
proof (induction s arbitrary: l)
  case Nil then show ?case by simp
next
  case (Cons c s)
  show ?case
  proof (cases "c = NL")
    case True with Cons show ?thesis by auto
  next
    case False
    obtain x xs where sp: "split_nl s = x # xs" using split_nl_nonempty[of s] by (cases "split_nl s") auto
    with False Cons.prems have "l = c # x \<or> l \<in> set xs" by auto
    then show ?thesis using Cons.IH[of x] Cons.IH[of l] sp False by auto
  qed
qed

lemma split_join:
  "rows \<noteq> [] \<Longrightarrow> \<forall>r\<in>set rows. NL \<notin> set r \<Longrightarrow> split_nl (join [NL] rows) = rows"
proof (induction rows)
  case Nil then show ?case by simp
next
  case (Cons r rows)
  show ?case
  proof (cases rows)
    case Nil with Cons.prems show ?thesis by (simp add: split_nl_single)
  next
    case (Cons r' rows')
    with Cons.prems Cons.IH show ?thesis by (simp add: split_nl_append_NL)
  qed
qed

lemma bindE_Inr_iff: "bindE r f = Inr y \<longleftrightarrow> (\<exists>x. r = Inr x \<and> f x = Inr y)"
  by (cases r) (simp_all add: bindE_def)

lemma repeat_Inr_iff: "repeat s n = Inr r \<longleftrightarrow> 0 \<le> n \<and> r = concat (replicate (nat n) s)"
  by (auto simp: repeat_def)

lemma mapE_Inr: "mapE f xs = Inr ys \<Longrightarrow> list_all2 (\<lambda>x y. f x = Inr y) xs ys"
  by (induction xs arbitrary: ys) (auto simp: bindE_Inr_iff)

lemma box_Inr:
  assumes "box env str opts = Inr out"
  obtains bs tp middle where
    "boxBorder env (mergedStyle opts) = Some bs"
    "topLine env bs (title opts) (boxWidth str opts) (paddingOffset opts) (boxWidthOffset str opts) = Inr tp"
    "list_all2 (\<lambda>i row. middleLine env bs (split_nl str) (paddingOffset opts) (boxWidth str opts)
          (boxWidthOffset str opts)
          (valignOffset_of (valign (mergedStyle opts)) (boxHeight str opts) (int (length (split_nl str))) (paddingOffset opts)) i = Inr row)
        (map int [0..<nat (boxHeight str opts)]) middle"
    "0 \<le> boxWidthOffset str opts"
    "out = join [NL] (tp # middle @ [g_bl bs @ hrule bs (nat (boxWidthOffset str opts)) @ g_br bs])"
  using assms
  by (auto simp: box_def Let_def bindE_Inr_iff repeat_Inr_iff boxWidth_def boxWidthOffset_def
      boxHeight_def paddingOffset_def hrule_def split: option.splits dest!: mapE_Inr)

lemma hrule_no_NL: "NL \<notin> set (g_h bs) \<Longrightarrow> NL \<notin> set (hrule bs k)"
  by (induction k) (simp_all add: hrule_def)

lemma concat_replicate_no_NL: "NL \<notin> set s \<Longrightarrow> NL \<notin> set (concat (replicate k s))"
  by (induction k) simp_all

lemma topLine_no_NL:
  assumes tl: "topLine env bs ttl w p wo = Inr tp" and nb: "border_has_no_newline bs"
    and nt: "case ttl of Some t \<Rightarrow> NL \<notin> set t | None \<Rightarrow> True"
  shows "NL \<notin> set tp"
proof (cases "ttl \<noteq> None \<and> ttl \<noteq> Some []")
  case True
  then obtain t where t: "ttl = Some t" by auto
  with nt have nlt: "NL \<notin> set t" by simp
  from tl True t obtain a b where "tp = g_tl bs @ concat (replicate a (g_h bs)) @ t
      @ concat (replicate b (g_h bs)) @ g_tr bs"
    by (auto simp: topLine_def Let_def bindE_Inr_iff repeat_Inr_iff)
  with nb nlt show ?thesis
    using concat_replicate_no_NL [of "g_h bs"] by (simp add: border_has_no_newline_def)
next
  case False
  with tl obtain a where "tp = g_tl bs @ concat (replicate a (g_h bs)) @ g_tr bs"
    by (auto simp: topLine_def bindE_Inr_iff repeat_Inr_iff)
  with nb show ?thesis
    using concat_replicate_no_NL [of "g_h bs"] by (simp add: border_has_no_newline_def)
qed

lemma middleLine_no_NL:
  assumes "middleLine env bs (split_nl str) p w wo vo i = Inr row" "border_has_no_newline bs"
  shows "NL \<notin> set row"
proof (cases "i < vo \<or> i \<ge> vo + int (length (split_nl str))")
  case True
  with assms show ?thesis
    by (auto simp: middleLine_def bindE_Inr_iff repeat_Inr_iff border_has_no_newline_def SP_def NL_def)
next
  case False
  then have "nat (i - vo) < length (split_nl str)" by auto
  then have "NL \<notin> set (split_nl str ! nat (i - vo))"
    using split_nl_lines_no_NL nth_mem by blast
  with False assms show ?thesis
    by (auto simp: middleLine_def Let_def bindE_Inr_iff repeat_Inr_iff border_has_no_newline_def SP_def NL_def)
qed

lemma box_rows:
  assumes ret: "box env str opts = Inr out"
    and border: "boxBorder env (mergedStyle opts) = Some bs"
    and nb: "border_has_no_newline bs"
    and nt: "title_has_no_newline opts"
  obtains tp middle where
    "topLine env bs (title opts) (boxWidth str opts) (paddingOffset opts) (boxWidthOffset str opts) = Inr tp"
    "length middle = nat (boxHeight str opts)"
    "split_nl out = tp # middle @ [g_bl bs @ hrule bs (nat (boxWidthOffset str opts)) @ g_br bs]"
proof -
  from ret border obtain tp middle where
    tp: "topLine env bs (title opts) (boxWidth str opts) (paddingOffset opts) (boxWidthOffset str opts) = Inr tp"
    and mid: "list_all2 (\<lambda>i row. middleLine env bs (split_nl str) (paddingOffset opts) (boxWidth str opts)
          (boxWidthOffset str opts)
          (valignOffset_of (valign (mergedStyle opts)) (boxHeight str opts) (int (length (split_nl str))) (paddingOffset opts)) i = Inr row)
        (map int [0..<nat (boxHeight str opts)]) middle"
    and out: "out = join [NL] (tp # middle @ [g_bl bs @ hrule bs (nat (boxWidthOffset str opts)) @ g_br bs])"
    by (auto elim!: box_Inr)
  from mid have len: "length middle = nat (boxHeight str opts)"
    by (auto dest: list_all2_lengthD)
  have t: "NL \<notin> set tp"
    using topLine_no_NL [OF tp nb] nt by (simp add: title_has_no_newline_def)
  have m: "\<forall>row \<in> set middle. NL \<notin> set row"
  proof
    fix row assume "row \<in> set middle"
    then obtain k where "k < length middle" "middle ! k = row" by (auto simp: in_set_conv_nth)
    with mid show "NL \<notin> set row"
      using middleLine_no_NL [OF _ nb] by (auto simp: list_all2_conv_all_nth)
  qed
  have b: "NL \<notin> set (g_bl bs @ hrule bs (nat (boxWidthOffset str opts)) @ g_br bs)"
    using nb hrule_no_NL by (auto simp: border_has_no_newline_def)
  have "split_nl out = tp # middle @ [g_bl bs @ hrule bs (nat (boxWidthOffset str opts)) @ g_br bs]"
    unfolding out using t m b by (intro split_join) auto
  with tp len that show ?thesis by blast
qed

lemma stripAnsi_sgr_no_ESC: "ESC \<notin> set s \<Longrightarrow> stripAnsi_sgr s = s"
  by (induction s) auto

lemma boxBorder_plain_default: "boxBorder plain_env (mergedStyle titleT) = Some solidBorder"
  by code_simp

lemma hrule_solid: "hrule solidBorder k = replicate k 0x2500"
  by (induction k) (simp_all add: hrule_def solidBorder_def glyphs_def)

text \<open>
  Claim C10, as the source has it.  When \<^verbatim>\<open>box\<close> returns, the padding is not
  negative, and neither the title nor a glyph of the border contains a newline, the
  result splits into the top line, one row for each of the \<open>n + paddingOffset\<close> rows
  of the loop, and the bottom line: \<open>n + paddingOffset + 2\<close> lines, where \<open>n\<close> is the
  number of lines of the text.
\<close>

theorem box_line_count:
  assumes ret: "box env str opts = Inr out"
    and border: "boxBorder env (mergedStyle opts) = Some bs"
    and nb: "border_has_no_newline bs"
    and nt: "title_has_no_newline opts"
    and pad: "0 \<le> padding (mergedStyle opts)"
  shows "length (split_nl out) = length (split_nl str) + nat (paddingOffset opts) + 2
     \<and> topLine env bs (title opts) (boxWidth str opts) (paddingOffset opts) (boxWidthOffset str opts)
         = Inr (hd (split_nl out))
     \<and> last (split_nl out) = g_bl bs @ hrule bs (nat (boxWidthOffset str opts)) @ g_br bs"
proof -
  from pad have "0 \<le> paddingOffset opts"
    by (simp add: paddingOffset_def paddingOffset_of_def)
  then have h: "nat (boxHeight str opts) = length (split_nl str) + nat (paddingOffset opts)"
    by (simp add: boxHeight_def nat_add_distrib)
  obtain tp middle where
    "topLine env bs (title opts) (boxWidth str opts) (paddingOffset opts) (boxWidthOffset str opts) = Inr tp"
    "length middle = nat (boxHeight str opts)"
    "split_nl out = tp # middle @ [g_bl bs @ hrule bs (nat (boxWidthOffset str opts)) @ g_br bs]"
    by (rule box_rows [OF ret border nb nt])
  with h show ?thesis by simp
qed

lemma box_twoLines:
  "box plain_env twoLines noOpts =
     Inr (join [NL]
       [[0x250C] @ replicate 10 0x2500 @ [0x2510],
        [0x2502] @ js ''          '' @ [0x2502],
        [0x2502] @ js ''  line1   '' @ [0x2502],
        [0x2502] @ js ''  line22  '' @ [0x2502],
        [0x2502] @ js ''          '' @ [0x2502],
        [0x2514] @ replicate 10 0x2500 @ [0x2518]])"
  by code_simp

theorem box_line_count_witness:
  "\<exists>out. box plain_env twoLines noOpts = Inr out
     \<and> length (split_nl twoLines) = 2 \<and> paddingOffset noOpts = 2
     \<and> length (split_nl out) = 6
     \<and> hd (split_nl out) = [0x250C] @ replicate 10 0x2500 @ [0x2510]
     \<and> last (split_nl out) = [0x2514] @ replicate 10 0x2500 @ [0x2518]"
proof -
  obtain out where out: "box plain_env twoLines noOpts = Inr out"
    using box_twoLines by blast
  have b: "boxBorder plain_env (mergedStyle noOpts) = Some solidBorder" by code_simp
  have nb: "border_has_no_newline solidBorder" by code_simp
  have nt: "title_has_no_newline noOpts" by code_simp
  have pad: "0 \<le> padding (mergedStyle noOpts)" by code_simp
  have n: "length (split_nl twoLines) = 2" by code_simp
  have p: "paddingOffset noOpts = 2" by code_simp
  have wo: "boxWidthOffset twoLines noOpts = 10" by code_simp
  have w: "boxWidth twoLines noOpts = 8" by code_simp
  have t: "topLine plain_env solidBorder (title noOpts) 8 2 10 = Inr ([0x250C] @ replicate 10 0x2500 @ [0x2510])"
    by code_simp
  have gl: "g_bl solidBorder = [0x2514]" "g_br solidBorder = [0x2518]"
    by (simp_all add: solidBorder_def glyphs_def)
  note main = box_line_count [OF out b nb nt pad]
  from main have 1: "length (split_nl out) = 6" by (simp add: n p)
  from main have "topLine plain_env solidBorder (title noOpts) 8 2 10 = Inr (hd (split_nl out))"
    by (simp add: w p wo)
  with t have 2: "hd (split_nl out) = [0x250C] @ replicate 10 0x2500 @ [0x2510]" by simp
  from main have 3: "last (split_nl out) = [0x2514] @ replicate 10 0x2500 @ [0x2518]"
    by (simp add: wo hrule_solid gl)
  from out n p 1 2 3 show ?thesis by blast
qed

text \<open>
  Claim C10, as stated, fails: a title is any string, and a newline in it splits the
  top line, so the box of a one-line text with the default padding has six lines, not
  five.
\<close>

theorem box_title_newline_adds_line:
  "map_sum id (\<lambda>out. length (split_nl out)) (box plain_env (js ''hello'') titleTwoLines) = Inr 6
   \<and> length (split_nl (js ''hello'')) + nat (paddingOffset titleTwoLines) + 2 = 5"
proof -
  have 1: "map_sum id (\<lambda>out. length (split_nl out)) (box plain_env (js ''hello'') titleTwoLines) = Inr 6"
    by code_simp
  have 2: "length (split_nl (js ''hello'')) + nat (paddingOffset titleTwoLines) + 2 = 5"
    by code_simp
  from 1 2 show ?thesis by blast
qed

text \<open>
  Claim C8.  In every box that \<^verbatim>\<open>box\<close> returns for a title that is not empty, the
  top line is the corner, \<open>L\<close> horizontal glyphs, the title, \<open>R\<close> horizontal glyphs
  and the corner, with \<open>L = floor ((width - visibleWidth title) / 2)\<close>; when a rule
  of \<open>k\<close> glyphs has the visible width \<open>k\<close>, as for the glyphs of every preset, the
  fills and the title add up to \<open>widthOffset\<close>, the length of the rule of the bottom
  line and of the top line without a title.
\<close>

theorem box_title_fill:
  assumes ret: "box env str opts = Inr out"
    and ttl: "title opts = Some t" and ne: "t \<noteq> []"
    and border: "boxBorder env (mergedStyle opts) = Some bs"
    and glyph: "\<forall>k. length (stripAnsi env (hrule bs k)) = k"
  shows "\<exists>L R rows.
      out = join [NL] ((g_tl bs @ hrule bs L @ t @ hrule bs R @ g_tr bs) # rows
                        @ [g_bl bs @ hrule bs (nat (boxWidthOffset str opts)) @ g_br bs])
      \<and> int L = (boxWidth str opts - int (length (stripAnsi env t))) div 2
      \<and> int L + int (length (stripAnsi env t)) + int R = boxWidthOffset str opts"
proof -
  from ret border obtain tp middle where
    tp: "topLine env bs (title opts) (boxWidth str opts) (paddingOffset opts) (boxWidthOffset str opts) = Inr tp"
    and out: "out = join [NL] (tp # middle @ [g_bl bs @ hrule bs (nat (boxWidthOffset str opts)) @ g_br bs])"
    by (auto elim!: box_Inr)
  define a where "a = (boxWidth str opts - int (length (stripAnsi env t))) div 2"
  define b where "b = boxWidth str opts - int (length (stripAnsi env t))
      - int (length (stripAnsi env (hrule bs (nat a)))) + paddingOffset opts"
  from tp ttl ne have a0: "0 \<le> a" and b0: "0 \<le> b"
    and tpe: "tp = g_tl bs @ hrule bs (nat a) @ t @ hrule bs (nat b) @ g_tr bs"
    by (auto simp: topLine_def Let_def bindE_Inr_iff repeat_Inr_iff a_def b_def hrule_def)
  from glyph have "int (length (stripAnsi env (hrule bs (nat a)))) = int (nat a)" by simp
  with a0 b0 have "int (nat a) + int (length (stripAnsi env t)) + int (nat b) = boxWidthOffset str opts"
    by (simp add: b_def boxWidthOffset_def)
  moreover from a0 have "int (nat a) = (boxWidth str opts - int (length (stripAnsi env t))) div 2"
    by (simp add: a_def)
  ultimately show ?thesis using out tpe by blast
qed

lemma box_hi_T:
  "box plain_env (js ''hi'') titleT =
     Inr (join [NL]
       [[0x250C] @ replicate 1 0x2500 @ js ''T'' @ replicate 4 0x2500 @ [0x2510],
        [0x2502] @ js ''      '' @ [0x2502],
        [0x2502] @ js ''  hi  '' @ [0x2502],
        [0x2502] @ js ''      '' @ [0x2502],
        [0x2514] @ replicate 6 0x2500 @ [0x2518]])"
  by code_simp

theorem box_title_fill_witness:
  "boxWidth (js ''hi'') titleT = 4 \<and> boxWidthOffset (js ''hi'') titleT = 6
   \<and> (\<exists>out L R rows. box plain_env (js ''hi'') titleT = Inr out
        \<and> out = join [NL] (([0x250C] @ replicate L 0x2500 @ js ''T'' @ replicate R 0x2500 @ [0x2510]) # rows
                          @ [[0x2514] @ replicate 6 0x2500 @ [0x2518]])
        \<and> int L = (4 - 1) div 2 \<and> L = 1 \<and> R = 4)"
proof -
  have w: "boxWidth (js ''hi'') titleT = 4" by code_simp
  have wo: "boxWidthOffset (js ''hi'') titleT = 6" by code_simp
  have t: "title titleT = Some (js ''T'')" "js ''T'' \<noteq> []" by (simp_all add: titleT_def js_def)
  have st: "stripAnsi plain_env = stripAnsi_sgr" by (simp add: plain_env_def)
  have g: "\<forall>k. length (stripAnsi plain_env (hrule solidBorder k)) = k"
    by (simp add: st hrule_solid stripAnsi_sgr_no_ESC ESC_def)
  have tl: "length (stripAnsi plain_env (js ''T'')) = 1" unfolding st by code_simp
  have gl: "g_tl solidBorder = [0x250C]" "g_tr solidBorder = [0x2510]"
    "g_bl solidBorder = [0x2514]" "g_br solidBorder = [0x2518]"
    by (simp_all add: solidBorder_def glyphs_def)
  from box_title_fill [OF box_hi_T t boxBorder_plain_default g]
  obtain L R rows where
    "join [NL]
       [[0x250C] @ replicate 1 0x2500 @ js ''T'' @ replicate 4 0x2500 @ [0x2510],
        [0x2502] @ js ''      '' @ [0x2502],
        [0x2502] @ js ''  hi  '' @ [0x2502],
        [0x2502] @ js ''      '' @ [0x2502],
        [0x2514] @ replicate 6 0x2500 @ [0x2518]]
     = join [NL] (([0x250C] @ replicate L 0x2500 @ js ''T'' @ replicate R 0x2500 @ [0x2510]) # rows
                          @ [[0x2514] @ replicate 6 0x2500 @ [0x2518]])"
    and "int L = (4 - 1) div 2" and "int L + 1 + int R = 6"
    unfolding w wo tl gl hrule_solid by auto
  then show ?thesis using w wo box_hi_T by (intro conjI exI[of _ L] exI[of _ R] exI[of _ rows]) auto
qed

text \<open>
  A title wider than \<open>width\<close> makes the count of the left fill negative, and
  \<^verbatim>\<open>repeat\<close> raises: no box is returned.
\<close>

lemma box_title_too_wide:
  "box plain_env (js ''hi'') \<lparr> title = Some (js ''a long title''), style = None \<rparr> = Inl RangeError"
  by code_simp

text \<open>
  What the rows of a box have in common.  When the pieces a row is put together from
  are self-contained and the glyphs and the space are one column wide, every row has
  the visible width \<open>widthOffset + 2\<close>, for the \<open>width\<close> of line 228, which counts
  the raw lengths of the lines.
\<close>

lemma selfContained_strip_Nil: "selfContained env s \<Longrightarrow> stripAnsi env [] = []"
proof -
  assume "selfContained env s"
  then have "stripAnsi env (s @ []) = stripAnsi env s @ stripAnsi env []"
    unfolding selfContained_def by blast
  then show ?thesis by simp
qed

lemma selfContained_append:
  "selfContained env a \<Longrightarrow> selfContained env b \<Longrightarrow> selfContained env (a @ b)"
  by (simp add: selfContained_def)

lemma selfContained_replicate:
  "selfContained env g \<Longrightarrow> selfContained env (concat (replicate k g))"
proof (induction k)
  case 0
  then show ?case using selfContained_strip_Nil [of env g] by (simp add: selfContained_def)
next
  case (Suc k)
  then show ?case by (simp add: selfContained_append)
qed

lemma visible_append:
  "selfContained env a \<Longrightarrow>
   length (stripAnsi env (a @ b)) = length (stripAnsi env a) + length (stripAnsi env b)"
  by (simp add: selfContained_def)

lemma visible_replicate:
  "selfContained env g \<Longrightarrow>
   length (stripAnsi env (concat (replicate k g))) = k * length (stripAnsi env g)"
proof (induction k)
  case 0
  then show ?case using selfContained_strip_Nil [of env g] by simp
next
  case (Suc k)
  then show ?case by (simp add: visible_append)
qed

lemma box_rows_common_width:
  assumes ret: "box env str opts = Inr out"
    and border: "boxBorder env (mergedStyle opts) = Some bs"
    and sc: "selfContained env [SP]" "selfContained env (g_tl bs)" "selfContained env (g_bl bs)"
      "selfContained env (g_h bs)" "selfContained env (g_v bs)"
    and sct: "case title opts of Some t \<Rightarrow> selfContained env t | None \<Rightarrow> True"
    and scl: "\<forall>line \<in> set (split_nl str). selfContained env line"
    and sp: "length (stripAnsi env [SP]) = 1"
    and gl: "length (stripAnsi env (g_tl bs)) = 1" "length (stripAnsi env (g_tr bs)) = 1"
      "length (stripAnsi env (g_bl bs)) = 1" "length (stripAnsi env (g_br bs)) = 1"
      "length (stripAnsi env (g_h bs)) = 1" "length (stripAnsi env (g_v bs)) = 1"
  shows "\<exists>rows. out = join [NL] rows
     \<and> (\<forall>row \<in> set rows. int (length (stripAnsi env row)) = boxWidthOffset str opts + 2)"
proof -
  define vis where "vis s = int (length (stripAnsi env s))" for s
  have vadd: "vis (a @ b) = vis a + vis b" if "selfContained env a" for a b
    using visible_append [OF that] by (simp add: vis_def)
  have vrep: "vis (concat (replicate k g)) = int k * vis g" if "selfContained env g" for k g
    using visible_replicate [OF that] by (simp add: vis_def)
  have vg: "vis (g_tl bs) = 1" "vis (g_tr bs) = 1" "vis (g_bl bs) = 1" "vis (g_br bs) = 1"
    "vis (g_h bs) = 1" "vis (g_v bs) = 1" "vis [SP] = 1"
    using gl sp by (simp_all add: vis_def)
  note screp = selfContained_replicate
  have csp: "concat (replicate k [SP]) = replicate k SP" for k by (induction k) simp_all
  have scsp: "selfContained env (replicate k SP)" for k
    using selfContained_replicate [OF sc(1), of k] by (simp only: csp)
  have vsp: "vis (replicate k SP) = int k" for k
    using vrep [OF sc(1), of k] vg by (simp add: csp)
  let ?W = "boxWidth str opts" and ?p = "paddingOffset opts" and ?WO = "boxWidthOffset str opts"
  from ret border obtain tp middle where
    tp: "topLine env bs (title opts) ?W ?p ?WO = Inr tp"
    and mid: "list_all2 (\<lambda>i row. middleLine env bs (split_nl str) ?p ?W ?WO
          (valignOffset_of (valign (mergedStyle opts)) (boxHeight str opts) (int (length (split_nl str))) ?p) i = Inr row)
        (map int [0..<nat (boxHeight str opts)]) middle"
    and wo: "0 \<le> ?WO"
    and out: "out = join [NL] (tp # middle @ [g_bl bs @ hrule bs (nat ?WO) @ g_br bs])"
    by (auto elim!: box_Inr)
  have WO: "?WO = ?W + ?p" by (simp add: boxWidthOffset_def)
  have t: "vis tp = ?WO + 2"
  proof (cases "title opts \<noteq> None \<and> title opts \<noteq> Some []")
    case True
    then obtain t where t: "title opts = Some t" by auto
    with sct have st: "selfContained env t" by simp
    define a where "a = (?W - vis t) div 2"
    define b where "b = ?W - vis t - vis (concat (replicate (nat a) (g_h bs))) + ?p"
    from tp True t have a0: "0 \<le> a" and b0: "0 \<le> b"
      and tpe: "tp = g_tl bs @ concat (replicate (nat a) (g_h bs)) @ t
          @ concat (replicate (nat b) (g_h bs)) @ g_tr bs"
      by (auto simp: topLine_def Let_def bindE_Inr_iff repeat_Inr_iff a_def b_def vis_def)
    have "b = ?W - vis t - a + ?p" using a0 by (simp add: b_def vrep sc vg)
    with a0 b0 show ?thesis by (simp add: tpe vadd vrep vg WO sc st screp)
  next
    case False
    with tp have "tp = g_tl bs @ concat (replicate (nat ?WO) (g_h bs)) @ g_tr bs"
      by (auto simp: topLine_def bindE_Inr_iff repeat_Inr_iff)
    with wo show ?thesis by (simp add: vadd vrep vg sc screp)
  qed
  have m: "vis row = ?WO + 2" if "row \<in> set middle" for row
  proof -
    from that obtain k where "k < length middle" "middle ! k = row" by (auto simp: in_set_conv_nth)
    with mid obtain i vo where r: "middleLine env bs (split_nl str) ?p ?W ?WO vo i = Inr row"
      by (auto simp: list_all2_conv_all_nth)
    show ?thesis
    proof (cases "i < vo \<or> i \<ge> vo + int (length (split_nl str))")
      case True
      with r wo obtain "row = g_v bs @ concat (replicate (nat ?WO) [SP]) @ g_v bs"
        by (auto simp: middleLine_def bindE_Inr_iff repeat_Inr_iff)
      with wo show ?thesis by (simp add: vadd vsp scsp vg sc)
    next
      case False
      define line where "line = split_nl str ! nat (i - vo)"
      from False have "nat (i - vo) < length (split_nl str)" by auto
      with scl have sl: "selfContained env line" by (simp add: line_def)
      from r False have p0: "0 \<le> ?p" and r0: "0 \<le> ?W - vis line"
        and re: "row = g_v bs @ concat (replicate (nat ?p) [SP]) @ line
            @ concat (replicate (nat (?W - vis line)) [SP]) @ g_v bs"
        by (auto simp: middleLine_def Let_def bindE_Inr_iff repeat_Inr_iff line_def vis_def)
      then show ?thesis
        by (simp add: vadd vsp scsp vg WO sc sl)
    qed
  qed
  have b: "vis (g_bl bs @ hrule bs (nat ?WO) @ g_br bs) = ?WO + 2"
    using wo by (simp add: vadd vrep vg hrule_def sc screp)
  from t m b have "\<forall>row \<in> set (tp # middle @ [g_bl bs @ hrule bs (nat ?WO) @ g_br bs]). vis row = ?WO + 2"
    by auto
  with out show ?thesis unfolding vis_def by blast
qed


lemma selfContained_plain_char: "c \<noteq> ESC \<Longrightarrow> selfContained plain_env [c]"
  by (simp add: selfContained_def plain_env_def)

lemma selfContained_redHi: "selfContained plain_env redHi"
  by (simp add: selfContained_def plain_env_def redHi_def js_def ESC_def is_sgr_param_def)

lemma box_rows_common_width_redHi:
  "\<exists>rows. box plain_env redHi noOpts = Inr (join [NL] rows)
     \<and> (\<forall>row \<in> set rows. int (length (stripAnsi_sgr row)) = 16 + 2)"
proof -
  obtain out where out: "box plain_env redHi noOpts = Inr out"
    by (cases "box plain_env redHi noOpts") (simp_all add: isl_def, code_simp)
  have b: "boxBorder plain_env (mergedStyle noOpts) = Some solidBorder" by code_simp
  have wo: "boxWidthOffset redHi noOpts = 16" by code_simp
  have st: "stripAnsi plain_env = stripAnsi_sgr" by (simp add: plain_env_def)
  have lines: "split_nl redHi = [redHi]" by code_simp
  have g: "g_tl solidBorder = [0x250C]" "g_tr solidBorder = [0x2510]" "g_bl solidBorder = [0x2514]"
    "g_br solidBorder = [0x2518]" "g_h solidBorder = [0x2500]" "g_v solidBorder = [0x2502]"
    by (simp_all add: solidBorder_def glyphs_def)
  have one: "length (stripAnsi plain_env [c]) = 1" if "c \<noteq> ESC" for c
    using that by (simp add: st)
  have t: "title noOpts = None" by (simp add: noOpts_def)
  from box_rows_common_width [OF out b, unfolded g lines wo st]
  have "\<exists>rows. out = join [NL] rows
     \<and> (\<forall>row \<in> set rows. int (length (stripAnsi_sgr row)) = 16 + 2)"
    using selfContained_plain_char selfContained_redHi one
    by (simp add: SP_def ESC_def t st)
  with out show ?thesis by simp
qed

text \<open>
  Claim C1 fails on a text with colour codes.  Line 228 takes the maximum of the raw
  lengths \<^verbatim>\<open>line.length\<close>, while line 270 pads with the stripped length: for the
  red \<^verbatim>\<open>hi\<close>, with the raw length 12 and the visible width 2, the width is 14 and
  every row is 18 columns wide, where the claim gives \<open>(2 + 2) + 2 + 2 = 8\<close>.
\<close>

theorem box_width_counts_escape_codes:
  "map_sum id (\<lambda>out. map (\<lambda>row. length (stripAnsi_sgr row)) (split_nl out))
      (box plain_env redHi noOpts) = Inr [18, 18, 18, 18, 18]
   \<and> map (\<lambda>line. length (stripAnsi_sgr line)) (split_nl redHi) = [2]
   \<and> map length (split_nl redHi) = [12]
   \<and> paddingOffset noOpts = 2
   \<and> boxWidth redHi noOpts = 14"
proof -
  have 1: "map_sum id (\<lambda>out. map (\<lambda>row. length (stripAnsi_sgr row)) (split_nl out))
      (box plain_env redHi noOpts) = Inr [18, 18, 18, 18, 18]" by code_simp
  have 2: "map (\<lambda>line. length (stripAnsi_sgr line)) (split_nl redHi) = [2]" by code_simp
  have 3: "map length (split_nl redHi) = [12]" by code_simp
  have 4: "paddingOffset noOpts = 2" by code_simp
  have 5: "boxWidth redHi noOpts = 14" by code_simp
  from 1 2 3 4 5 show ?thesis by blast
qed

section \<open>Backtick highlighting\<close>

lemma highlightBackticks_plain:
  "BT \<notin> set p \<Longrightarrow> highlightBackticks env (p @ rest) = p @ highlightBackticks env rest"
  by (induction p) auto

lemma highlightBackticks_no_backtick: "BT \<notin> set p \<Longrightarrow> highlightBackticks env p = p"
  using highlightBackticks_plain [of p env "[]"] by simp

lemma takeWhile_to_backtick: "BT \<notin> set x \<Longrightarrow> takeWhile (\<lambda>d. d \<noteq> BT) (x @ BT # rest) = x"
  by (induction x) auto

lemma dropWhile_to_backtick: "BT \<notin> set x \<Longrightarrow> dropWhile (\<lambda>d. d \<noteq> BT) (x @ BT # rest) = BT # rest"
  by (induction x) auto

lemma highlightBackticks_span:
  assumes "x \<noteq> []" "BT \<notin> set x"
  shows "highlightBackticks env (BT # x @ BT # rest) = cyan env x @ highlightBackticks env rest"
  using assms by (simp add: takeWhile_to_backtick dropWhile_to_backtick)

lemma highlightBackticks_stray:
  assumes "take 1 r = [BT] \<or> BT \<notin> set r"
  shows "highlightBackticks env (BT # r) = BT # highlightBackticks env r"
proof (cases "take 1 r = [BT]")
  case True
  then obtain r' where "r = BT # r'" by (cases r) auto
  then show ?thesis by simp
next
  case False
  with assms have "BT \<notin> set r" by simp
  then have "dropWhile (\<lambda>d. d \<noteq> BT) r = []" by (auto simp: dropWhile_eq_Nil_conv)
  then show ?thesis by simp
qed

text \<open>On a text cut into its pieces the function replaces the spans and copies the rest.\<close>

lemma highlightBackticks_segments:
  "wf_segments segs \<Longrightarrow> highlightBackticks env (source segs) = renderedText env segs"
proof (induction segs)
  case Nil
  then show ?case by (simp add: source_def renderedText_def)
next
  case (Cons seg segs)
  show ?case
  proof (cases seg)
    case (Plain p)
    with Cons show ?thesis
      by (simp add: source_def renderedText_def highlightBackticks_plain)
  next
    case (Span x)
    with Cons show ?thesis
      by (simp add: source_def renderedText_def highlightBackticks_span
          del: highlightBackticks.simps)
  next
    case Stray
    with Cons.prems have "wf_segments segs"
      and "take 1 (source segs) = [BT] \<or> BT \<notin> set (source segs)" by simp_all
    with Cons.IH Stray show ?thesis
      using highlightBackticks_stray [of "source segs" env]
      by (simp add: source_def renderedText_def del: highlightBackticks.simps)
  qed
qed

text \<open>Every text can be cut into such pieces.\<close>

lemma segments_exist:
  fixes env :: env
  shows "\<exists>segs. wf_segments segs \<and> source segs = s"
proof (induction env s rule: highlightBackticks.induct)
  case (1 env)
  have "wf_segments [] \<and> source [] = []" by (simp add: source_def)
  then show ?case by blast
next
  case (2 env c cs)
  let ?x = "takeWhile (\<lambda>d. d \<noteq> BT) cs" and ?d = "dropWhile (\<lambda>d. d \<noteq> BT) cs"
  show ?case
  proof (cases "c = BT \<and> ?x \<noteq> [] \<and> ?d \<noteq> []")
    case True
    from 2(1) [OF True] obtain segs where s: "wf_segments segs" "source segs = tl ?d" by blast
    from True have "hd ?d = BT" using hd_dropWhile [of "\<lambda>d. d \<noteq> BT" cs] by simp
    with True have d: "?d = BT # tl ?d" by (cases ?d) auto
    have "cs = ?x @ ?d" by simp
    with d have cs: "cs = ?x @ BT # tl ?d" by simp
    have nx: "BT \<notin> set ?x" by (auto dest: set_takeWhileD)
    from s True nx have "wf_segments (Span ?x # segs)" by simp
    moreover from s cs True have "source (Span ?x # segs) = c # cs"
      by (simp add: source_def)
    ultimately show ?thesis by blast
  next
    case False
    from 2(2) [OF False] obtain segs where s: "wf_segments segs" "source segs = cs" by blast
    show ?thesis
    proof (cases "c = BT")
      case True
      with False have "?x = [] \<or> ?d = []" by blast
      then have "take 1 cs = [BT] \<or> BT \<notin> set cs"
      proof
        assume "?x = []"
        then show ?thesis by (cases cs) (auto split: if_splits)
      next
        assume "?d = []"
        then have "BT \<notin> set cs" by (auto simp: dropWhile_eq_Nil_conv)
        then show ?thesis ..
      qed
      with s have "wf_segments (Stray # segs)" by simp
      moreover from s True have "source (Stray # segs) = c # cs" by (simp add: source_def)
      ultimately show ?thesis by blast
    next
      case False
      with s have "wf_segments (Plain [c] # segs)" by simp
      moreover from s have "source (Plain [c] # segs) = c # cs" by (simp add: source_def)
      ultimately show ?thesis by blast
    qed
  qed
qed

text \<open>
  The backticks of the rendered text are the stray ones: no delimiter of a span is
  left, when the colour function adds no backtick of its own.
\<close>

lemma renderedText_backticks:
  assumes "wf_segments segs" and "\<forall>x. BT \<notin> set x \<longrightarrow> BT \<notin> set (cyan env x)"
  shows "length (filter (\<lambda>c. c = BT) (renderedText env segs)) = length (filter (\<lambda>g. g = Stray) segs)"
  using assms(1)
proof (induction segs)
  case Nil
  then show ?case by (simp add: renderedText_def)
next
  case (Cons seg segs)
  have none: "filter (\<lambda>c. c = BT) p = []" if "BT \<notin> set p" for p :: jsstring
    using that by (induction p) auto
  from Cons show ?case
    using assms(2) by (cases seg) (auto simp: renderedText_def none)
qed

lemma fancyLayout_segments:
  assumes sp: "split_nl formatted = msg # additional"
    and m1: "wf_segments segs" "source segs = msg"
    and m2: "wf_segments below" "source below = additionalText additional"
  shows "fancyLayout env logObj opts formatted =
      (if ltype logObj = js ''box''
       then box env (renderedText env segs) \<lparr> title = ltitle logObj, style = lstyle logObj \<rparr>
       else bindE (FancyReporter_formatType env logObj (isBadge logObj)) (\<lambda>type.
              Inr (badgeWrap logObj
                    (fancyLine env opts (filterAndJoin [type, renderedText env segs])
                        (fancyRight env logObj opts)
                     @ renderedText env below @ traceStack env logObj))))"
proof -
  have h1: "highlightBackticks env msg = renderedText env segs"
    using highlightBackticks_segments [OF m1(1), of env] m1(2) by simp
  have h2: "highlightBackticks env (additionalText additional) = renderedText env below"
    using highlightBackticks_segments [OF m2(1), of env] m2(2) by simp
  show ?thesis
    using h1 h2
    by (simp add: fancyLayout_def sp Let_def isBadge_def badgeWrap_def traceStack_def
        additionalText_def del: highlightBackticks.simps cong: if_cong)
qed

text \<open>
  Claim C9.  The text that the fancy reporter formats from the arguments of a record
  is split into its first line and the other lines; each of the two can be cut into
  plain pieces, spans and stray backticks, and however they are cut, the line of the
  record is built from them with every span \<^verbatim>\<open>`x`\<close> replaced by the cyan \<open>x\<close>,
  without its backticks: in the left-hand segment, in the lines below, and in the
  text of a box.  The only backticks left are the stray ones.  A span is a match of
  the global replace, which scans from left to right without overlap.
\<close>

theorem FancyReporter_formatLogObj_spans:
  assumes fa: "formatArgs Fancy env hp (args logObj) opts = Some formatted"
    and sp: "split_nl formatted = msg # additional"
    and m1: "wf_segments segs" "source segs = msg"
    and m2: "wf_segments below" "source below = additionalText additional"
  shows "FancyReporter_formatLogObj env hp logObj opts = Some
      (if ltype logObj = js ''box''
       then box env (renderedText env segs) \<lparr> title = ltitle logObj, style = lstyle logObj \<rparr>
       else bindE (FancyReporter_formatType env logObj (isBadge logObj)) (\<lambda>type.
              Inr (badgeWrap logObj
                    (fancyLine env opts (filterAndJoin [type, renderedText env segs])
                        (fancyRight env logObj opts)
                     @ renderedText env below @ traceStack env logObj))))
     \<and> (\<exists>segs'. wf_segments segs' \<and> source segs' = s)
     \<and> ((\<forall>x. BT \<notin> set x \<longrightarrow> BT \<notin> set (cyan env x)) \<longrightarrow>
          length (filter (\<lambda>c. c = BT) (renderedText env segs))
            = length (filter (\<lambda>g. g = Stray) segs))"
proof -
  have "FancyReporter_formatLogObj env hp logObj opts = Some (fancyLayout env logObj opts formatted)"
    by (simp add: FancyReporter_formatLogObj_def fa)
  with fancyLayout_segments [OF sp m1 m2, of env logObj opts]
    segments_exist [of s] renderedText_backticks [OF m1(1), of env]
  show ?thesis by (simp only:) blast
qed

theorem FancyReporter_formatLogObj_spans_witness:
  "formatArgs Fancy cyan_env twoErrors (args npmRecord) opts0 = Some (js ''run `npm i` or `'')
   \<and> split_nl (js ''run `npm i` or `'') = [js ''run `npm i` or `'']
   \<and> wf_segments [Plain (js ''run ''), Span (js ''npm i''), Plain (js '' or ''), Stray]
   \<and> source [Plain (js ''run ''), Span (js ''npm i''), Plain (js '' or ''), Stray] = js ''run `npm i` or `''
   \<and> FancyReporter_formatLogObj cyan_env twoErrors npmRecord opts0
       = Some (Inr (js ''[app] '' @ [0x2139] @ js '' run '' @ [ESC] @ js ''[36mnpm i''
                    @ [ESC] @ js ''[39m or `''))"
proof -
  let ?segs = "[Plain (js ''run ''), Span (js ''npm i''), Plain (js '' or ''), Stray]"
  have fa: "formatArgs Fancy cyan_env twoErrors (args npmRecord) opts0 = Some (js ''run `npm i` or `'')"
    by code_simp
  have sp: "split_nl (js ''run `npm i` or `'') = js ''run `npm i` or `'' # []" by code_simp
  have w: "wf_segments ?segs" by (simp add: js_def BT_def source_def)
  have s: "source ?segs = js ''run `npm i` or `''" by (simp add: js_def BT_def source_def)
  have w0: "wf_segments []" "source [] = additionalText []"
    by (simp_all add: source_def additionalText_def)
  have r: "renderedText cyan_env ?segs
      = js ''run '' @ [ESC] @ js ''[36mnpm i'' @ [ESC] @ js ''[39m or `''"
    by (simp add: renderedText_def cyan_env_def js_def BT_def)
  have r0: "renderedText cyan_env [] = []" by (simp add: renderedText_def)
  have nb: "ltype npmRecord \<noteq> js ''box''" by code_simp
  have ft: "FancyReporter_formatType cyan_env npmRecord (isBadge npmRecord) = Inr [0x2139]"
    by code_simp
  have bw: "badgeWrap npmRecord l = l" for l
    by (simp add: badgeWrap_def isBadge_def npmRecord_def appRecord_def)
  have ts: "traceStack cyan_env npmRecord = []"
    by (simp add: traceStack_def npmRecord_def appRecord_def js_def)
  have fl: "fancyLine cyan_env opts0 (filterAndJoin [[0x2139], js ''run '' @ [ESC] @ js ''[36mnpm i''
                    @ [ESC] @ js ''[39m or `'']) (fancyRight cyan_env npmRecord opts0)
      = js ''[app] '' @ [0x2139] @ js '' run '' @ [ESC] @ js ''[36mnpm i''
                    @ [ESC] @ js ''[39m or `''"
    by code_simp
  from FancyReporter_formatLogObj_spans [OF fa sp w s w0, THEN conjunct1]
  have "FancyReporter_formatLogObj cyan_env twoErrors npmRecord opts0
       = Some (Inr (js ''[app] '' @ [0x2139] @ js '' run '' @ [ESC] @ js ''[36mnpm i''
                    @ [ESC] @ js ''[39m or `''))"
    by (simp only: nb if_False ft bindE_def sum.case r r0 bw ts append_Nil2 fl)
  with fa sp w s show ?thesis by simp
qed

text \<open>
  A backtick that no span claims stays: the one that closes a span does not open the
  next, and a backtick directly followed by another one opens nothing.
\<close>

lemma highlightBackticks_unpaired:
  "highlightBackticks cyan_env (js ''`a`b`'') = [ESC] @ js ''[36ma'' @ [ESC] @ js ''[39mb`''"
  "highlightBackticks plain_env (js ''``x``'') = js ''`x`''"
  by code_simp+

end
